theory Spec2Isabelle
  imports Main "HOL-Library.Monad_Syntax"
begin

section \<open>Calendar days\<close>

text \<open>
  A JavaScript \<open>Date\<close> is modelled by the number of its local calendar day, counted from
  1 January 1970 (the time of day plays no part in the calculator, which builds its dates at
  local midnight and compares them with \<open>toDateString\<close>). The operations follow the abstract
  operations of the ECMAScript specification: \<open>DayFromYear\<close>, \<open>YearFromTime\<close> (the largest
  year whose first day is not after the date, found here by a search from an estimate),
  \<open>MonthFromTime\<close>, \<open>DateFromTime\<close>, \<open>WeekDay\<close> and \<open>MakeDay\<close>, which normalises a month or
  a day out of range. Integers are unbounded: the finite range of \<open>Date\<close> is not modelled.
\<close>

type_synonym date = int

definition DayFromYear :: "int \<Rightarrow> int" where
  "DayFromYear y = 365 * (y - 1970) + (y - 1969) div 4 - (y - 1901) div 100 + (y - 1601) div 400"

definition InLeapYear :: "int \<Rightarrow> bool" where
  "InLeapYear y = (y mod 4 = 0 \<and> (y mod 100 \<noteq> 0 \<or> y mod 400 = 0))"

definition DaysInYear :: "int \<Rightarrow> int" where
  "DaysInYear y = (if InLeapYear y then 366 else 365)"

lemma div_succ:
  fixes a k :: int
  assumes "0 < k"
  shows "(a + 1) div k = a div k + (if k dvd a + 1 then 1 else 0)"
proof (cases "k dvd a + 1")
  case True
  then obtain q where q: "a + 1 = k * q" by (auto simp: dvd_def)
  have "a = k * (q - 1) + (k - 1)" using q by (simp add: algebra_simps)
  then have "a div k = q - 1" using assms by (intro int_div_pos_eq[where r = "k - 1"]) auto
  moreover have "(a + 1) div k = q" using q assms by simp
  ultimately show ?thesis using True by simp
next
  case False
  define r where "r = a mod k"
  have r: "0 \<le> r" "r < k" using assms by (simp_all add: r_def)
  have a: "a = k * (a div k) + r" by (simp add: r_def)
  have "r + 1 \<noteq> k"
  proof
    assume "r + 1 = k"
    then have "a + 1 = k * (a div k + 1)" using a by (simp add: algebra_simps)
    then show False using False by (metis dvd_triv_left)
  qed
  then have "r + 1 < k" using r by linarith
  moreover have "a + 1 = k * (a div k) + (r + 1)" using a by linarith
  ultimately have "(a + 1) div k = a div k" using r
    by (intro int_div_pos_eq[where r = "r + 1"]) auto
  then show ?thesis using False by simp
qed

lemma DayFromYear_Suc: "DayFromYear (y + 1) = DayFromYear y + DaysInYear y"
proof -
  have d4: "(4::int) dvd y - 1968 \<longleftrightarrow> 4 dvd y" by (rule dvd_diff_left_iff) simp
  have d100: "(100::int) dvd y - 1900 \<longleftrightarrow> 100 dvd y" by (rule dvd_diff_left_iff) simp
  have d400: "(400::int) dvd y - 1600 \<longleftrightarrow> 400 dvd y" by (rule dvd_diff_left_iff) simp
  have 1: "(y + 1 - 1969) div 4 = (y - 1969) div 4 + (if 4 dvd y then 1 else 0)"
    using div_succ[of 4 "y - 1969"] d4 by (simp add: algebra_simps)
  have 2: "(y + 1 - 1901) div 100 = (y - 1901) div 100 + (if 100 dvd y then 1 else 0)"
    using div_succ[of 100 "y - 1901"] d100 by (simp add: algebra_simps)
  have 3: "(y + 1 - 1601) div 400 = (y - 1601) div 400 + (if 400 dvd y then 1 else 0)"
    using div_succ[of 400 "y - 1601"] d400 by (simp add: algebra_simps)
  have 4: "(400::int) dvd y \<Longrightarrow> 100 dvd y" by (rule dvd_trans[of 100 400]) simp_all
  have 5: "(100::int) dvd y \<Longrightarrow> 4 dvd y" by (rule dvd_trans[of 4 100]) simp_all
  define i4 :: int where "i4 = (if (4::int) dvd y then 1 else 0)"
  define i100 :: int where "i100 = (if (100::int) dvd y then 1 else 0)"
  define i400 :: int where "i400 = (if (400::int) dvd y then 1 else 0)"
  define a where "a = (y - 1969) div 4"
  define b where "b = (y - 1901) div 100"
  define c where "c = (y - 1601) div 400"
  have "DayFromYear (y + 1) = 365 * (y + 1 - 1970) + (a + i4) - (b + i100) + (c + i400)"
    unfolding DayFromYear_def 1 2 3 a_def b_def c_def i4_def i100_def i400_def ..
  also have "\<dots> = (365 * (y - 1970) + a - b + c) + (365 + i4 - i100 + i400)"
    by (simp add: algebra_simps)
  also have "365 * (y - 1970) + a - b + c = DayFromYear y"
    unfolding DayFromYear_def a_def b_def c_def ..
  also have "365 + i4 - i100 + i400 = DaysInYear y"
    unfolding DaysInYear_def InLeapYear_def mod_eq_0_iff_dvd i4_def i100_def i400_def
    using 4 5 by (cases "(4::int) dvd y"; cases "(100::int) dvd y"; cases "(400::int) dvd y") simp_all
  finally show ?thesis .
qed

lemma DaysInYear_ge: "365 \<le> DaysInYear y" "DaysInYear y \<le> 366"
  by (simp_all add: DaysInYear_def)

lemma DayFromYear_less_Suc: "DayFromYear y < DayFromYear (y + 1)"
  using DayFromYear_Suc[of y] DaysInYear_ge(1)[of y] by linarith

lemma DayFromYear_pred_less: "DayFromYear (y - 1) < DayFromYear y"
  using DayFromYear_less_Suc[of "y - 1"] by simp

function yearDown :: "int \<Rightarrow> int \<Rightarrow> int" where
  "yearDown t y = (if t < DayFromYear y then yearDown t (y - 1) else y)"
  by pat_completeness auto
termination
proof (relation "measure (\<lambda>(t, y). nat (DayFromYear y - t))")
  fix t y :: int
  assume "t < DayFromYear y"
  then show "((t, y - 1), (t, y)) \<in> measure (\<lambda>(t, y). nat (DayFromYear y - t))"
    using DayFromYear_pred_less[of y] by simp
qed simp

function yearUp :: "int \<Rightarrow> int \<Rightarrow> int" where
  "yearUp t y = (if DayFromYear (y + 1) \<le> t then yearUp t (y + 1) else y)"
  by pat_completeness auto
termination
proof (relation "measure (\<lambda>(t, y). nat (t + 1 - DayFromYear (y + 1)))")
  fix t y :: int
  assume "DayFromYear (y + 1) \<le> t"
  then show "((t, y + 1), (t, y)) \<in> measure (\<lambda>(t, y). nat (t + 1 - DayFromYear (y + 1)))"
    using DayFromYear_less_Suc[of "y + 1"] by simp
qed simp

declare yearDown.simps [simp del] yearUp.simps [simp del]

definition YearFromTime :: "date \<Rightarrow> int" where
  "YearFromTime t = yearUp t (yearDown t (1970 + t div 365))"

definition DayWithinYear :: "date \<Rightarrow> int" where
  "DayWithinYear t = t - DayFromYear (YearFromTime t)"

definition leapDay :: "int \<Rightarrow> int" where
  "leapDay y = (if InLeapYear y then 1 else 0)"

definition MonthFromTime :: "date \<Rightarrow> int" where
  "MonthFromTime t =
     (let d = DayWithinYear t; l = leapDay (YearFromTime t) in
      if d < 31 then 0
      else if d < 59 + l then 1
      else if d < 90 + l then 2
      else if d < 120 + l then 3
      else if d < 151 + l then 4
      else if d < 181 + l then 5
      else if d < 212 + l then 6
      else if d < 243 + l then 7
      else if d < 273 + l then 8
      else if d < 304 + l then 9
      else if d < 334 + l then 10
      else 11)"

definition monthStart :: "int \<Rightarrow> int \<Rightarrow> int" where
  "monthStart m l =
     (if m = 0 then 0
      else if m = 1 then 31
      else if m = 2 then 59 + l
      else if m = 3 then 90 + l
      else if m = 4 then 120 + l
      else if m = 5 then 151 + l
      else if m = 6 then 181 + l
      else if m = 7 then 212 + l
      else if m = 8 then 243 + l
      else if m = 9 then 273 + l
      else if m = 10 then 304 + l
      else 334 + l)"

definition DateFromTime :: "date \<Rightarrow> int" where
  "DateFromTime t =
     DayWithinYear t - monthStart (MonthFromTime t) (leapDay (YearFromTime t)) + 1"

definition MakeDay :: "int \<Rightarrow> int \<Rightarrow> int \<Rightarrow> date" where
  "MakeDay year month dt =
     (let ym = year + month div 12; mn = month mod 12 in
      DayFromYear ym + monthStart mn (leapDay ym) + dt - 1)"

definition WeekDay :: "date \<Rightarrow> int" where
  "WeekDay t = (t + 4) mod 7"

text \<open>
  The constructor \<open>new Date(year, month, day)\<close> reads a year from 0 to 99 as 1900 + year;
  \<open>setDate\<close> does not.
\<close>

definition fullYear :: "int \<Rightarrow> int" where
  "fullYear year = (if 0 \<le> year \<and> year \<le> 99 then 1900 + year else year)"

definition newDate :: "int \<Rightarrow> int \<Rightarrow> int \<Rightarrow> date" where
  "newDate year month dt = MakeDay (fullYear year) month dt"

definition getDay :: "date \<Rightarrow> int" where "getDay t = WeekDay t"
definition getMonth :: "date \<Rightarrow> int" where "getMonth t = MonthFromTime t"
definition getFullYear :: "date \<Rightarrow> int" where "getFullYear t = YearFromTime t"
definition getDate :: "date \<Rightarrow> int" where "getDate t = DateFromTime t"

definition setDate :: "date \<Rightarrow> int \<Rightarrow> date" where
  "setDate t dt = MakeDay (YearFromTime t) (MonthFromTime t) dt"

definition daysInMonth :: "int \<Rightarrow> int \<Rightarrow> int" where
  "daysInMonth y m =
     (if m = 1 then 28 + leapDay y
      else if m = 3 \<or> m = 5 \<or> m = 8 \<or> m = 10 then 30 else 31)"

subsection \<open>Facts about the calendar\<close>

lemma DayFromYear_mono: "y \<le> y' \<Longrightarrow> DayFromYear y \<le> DayFromYear y'"
proof (induction y' rule: int_ge_induct)
  case base
  show ?case by simp
next
  case (step i)
  then show ?case using DayFromYear_less_Suc[of i] by linarith
qed

lemma yearDown_le: "DayFromYear (yearDown t y) \<le> t"
proof (induction t y rule: yearDown.induct)
  case (1 t y)
  then show ?case by (subst yearDown.simps) auto
qed

lemma yearUp_bounds:
  "DayFromYear y \<le> t \<Longrightarrow>
     DayFromYear (yearUp t y) \<le> t \<and> t < DayFromYear (yearUp t y + 1)"
proof (induction t y rule: yearUp.induct)
  case (1 t y)
  show ?case
  proof (cases "DayFromYear (y + 1) \<le> t")
    case True
    then show ?thesis using "1.IH" by (subst (1 2) yearUp.simps) simp
  next
    case False
    then show ?thesis using "1.prems" by (subst (1 2) yearUp.simps) simp
  qed
qed

lemma YearFromTime_bounds:
  "DayFromYear (YearFromTime t) \<le> t" "t < DayFromYear (YearFromTime t + 1)"
  using yearUp_bounds[OF yearDown_le, of t "1970 + t div 365"]
  by (simp_all add: YearFromTime_def)

lemma YearFromTime_unique:
  assumes "DayFromYear y \<le> t" "t < DayFromYear (y + 1)"
  shows "YearFromTime t = y"
proof (rule ccontr)
  assume ne: "YearFromTime t \<noteq> y"
  show False
  proof (cases "YearFromTime t < y")
    case True
    then have "DayFromYear (YearFromTime t + 1) \<le> DayFromYear y"
      by (intro DayFromYear_mono) simp
    then show False using assms(1) YearFromTime_bounds(2)[of t] by linarith
  next
    case False
    then have "DayFromYear (y + 1) \<le> DayFromYear (YearFromTime t)"
      using ne by (intro DayFromYear_mono) simp
    then show False using assms(2) YearFromTime_bounds(1)[of t] by linarith
  qed
qed

lemma DayWithinYear_bounds:
  "0 \<le> DayWithinYear t" "DayWithinYear t < 365 + leapDay (YearFromTime t)"
  using YearFromTime_bounds[of t] DayFromYear_Suc[of "YearFromTime t"]
  by (auto simp add: DayWithinYear_def DaysInYear_def leapDay_def split: if_splits)

lemma leapDay_cases: "leapDay y = 0 \<or> leapDay y = 1"
  by (simp add: leapDay_def)

lemma leapDay_bounds: "0 \<le> leapDay y" "leapDay y \<le> 1"
  by (simp_all add: leapDay_def)

lemma MonthFromTime_range: "0 \<le> MonthFromTime t" "MonthFromTime t \<le> 11"
  by (simp_all add: MonthFromTime_def Let_def)

lemma MakeDay_decompose:
  "MakeDay (YearFromTime t) (MonthFromTime t) (DateFromTime t) = t"
proof -
  have "MonthFromTime t div 12 = 0" "MonthFromTime t mod 12 = MonthFromTime t"
    using MonthFromTime_range[of t] by simp_all
  then show ?thesis
    by (simp add: MakeDay_def DateFromTime_def DayWithinYear_def Let_def)
qed

lemma setDate_getDate_plus: "setDate t (getDate t + k) = t + k"
  using MakeDay_decompose[of t]
  by (simp add: setDate_def getDate_def MakeDay_def Let_def)

lemma month_cases:
  fixes m :: int
  assumes "0 \<le> m" "m \<le> 11"
  shows "m = 0 \<or> m = 1 \<or> m = 2 \<or> m = 3 \<or> m = 4 \<or> m = 5 \<or> m = 6 \<or> m = 7 \<or> m = 8
         \<or> m = 9 \<or> m = 10 \<or> m = 11"
  using assms by presburger

lemma MakeDay_in_range:
  assumes "0 \<le> m" "m \<le> 11"
  shows "MakeDay y m d = DayFromYear y + monthStart m (leapDay y) + d - 1"
proof -
  have "m div 12 = 0" "m mod 12 = m" using assms by simp_all
  then show ?thesis by (simp add: MakeDay_def Let_def)
qed

lemma monthStart_next:
  assumes "0 \<le> m" "m \<le> 10"
  shows "monthStart (m + 1) (leapDay y) = monthStart m (leapDay y) + daysInMonth y m"
proof -
  have "m = 0 \<or> m = 1 \<or> m = 2 \<or> m = 3 \<or> m = 4 \<or> m = 5 \<or> m = 6 \<or> m = 7 \<or> m = 8
         \<or> m = 9 \<or> m = 10" using assms by presburger
  then show ?thesis by (auto simp: monthStart_def daysInMonth_def)
qed

lemma monthStart_December:
  "monthStart 11 (leapDay y) + daysInMonth y 11 = 365 + leapDay y"
  by (simp add: monthStart_def daysInMonth_def)

lemma monthStart_nonneg: "0 \<le> monthStart m (leapDay y)"
  using leapDay_cases[of y] by (auto simp: monthStart_def)

lemma monthEnd_le:
  assumes "0 \<le> m" "m \<le> 11"
  shows "monthStart m (leapDay y) + daysInMonth y m \<le> 365 + leapDay y"
  using month_cases[OF assms] leapDay_cases[of y]
  by (auto simp: monthStart_def daysInMonth_def)

lemma civil_of_MakeDay:
  assumes m: "0 \<le> m" "m \<le> 11" and d: "1 \<le> d" "d \<le> daysInMonth y m"
  shows "YearFromTime (MakeDay y m d) = y"
    and "MonthFromTime (MakeDay y m d) = m"
    and "DateFromTime (MakeDay y m d) = d"
proof -
  define t where "t = MakeDay y m d"
  define off where "off = monthStart m (leapDay y) + d - 1"
  have t: "t = DayFromYear y + off"
    unfolding t_def off_def MakeDay_in_range[OF m] by simp
  have off: "0 \<le> off" "off < 365 + leapDay y"
    using monthStart_nonneg[of m y] monthEnd_le[OF m, of y] d by (simp_all add: off_def)
  have "t < DayFromYear (y + 1)"
    using off t DayFromYear_Suc[of y] by (simp add: DaysInYear_def leapDay_def split: if_splits)
  then show Y: "YearFromTime (MakeDay y m d) = y"
    unfolding t_def[symmetric] using off t by (intro YearFromTime_unique) simp_all
  have dwy: "DayWithinYear t = off"
    using Y t by (simp add: DayWithinYear_def t_def)
  show M: "MonthFromTime (MakeDay y m d) = m"
    unfolding t_def[symmetric] MonthFromTime_def dwy Y[unfolded t_def[symmetric]]
    using month_cases[OF m] leapDay_bounds[of y] d
    by (elim disjE) (simp_all add: off_def monthStart_def daysInMonth_def Let_def)
  show "DateFromTime (MakeDay y m d) = d"
    unfolding DateFromTime_def M Y
    using dwy by (simp add: off_def t_def)
qed

section \<open>The due date calculator\<close>

text \<open>
  \<open>compliance.dueDateRules\<close> is a JSON value. A value that is not an object is \<open>None\<close>; an
  object is a record of its four optional fields, numbers as integers and \<open>specificDate\<close> as
  the calendar day it parses to (\<open>None\<close> when the field is absent).
\<close>

datatype Periodicity =
    MONTHLY | QUARTERLY | HALF_YEARLY | YEARLY | WEEKLY | DAILY | ONE_TIME | EVENT_BASED
  | OtherPeriodicity string

record DueDateRules =
  dueDay :: "int option"
  dueMonth :: "int option"
  dayOfWeek :: "int option"
  specificDate :: "date option"

record Compliance =
  complianceKey :: string
  complianceName :: string
  complianceDescription :: string
  category :: string
  periodicity :: Periodicity
  dueDateRules :: "DueDateRules option"
  entityTypes :: "string list"
  isActive :: bool

record IndianHoliday =
  date :: date
  holidayName :: string
  isNational :: bool

type_synonym holidayMap = "int \<Rightarrow> IndianHoliday list option"

text \<open>The operator \<open>||\<close> on a number or null: null and 0 are falsy.\<close>

definition orElse :: "int option \<Rightarrow> int option \<Rightarrow> int option" where
  "orElse v alt = (case v of None \<Rightarrow> alt | Some n \<Rightarrow> if n = 0 then alt else Some n)"

definition orDefault :: "int option \<Rightarrow> int \<Rightarrow> int" where
  "orDefault v dflt = (case v of None \<Rightarrow> dflt | Some n \<Rightarrow> if n = 0 then dflt else n)"

definition extractDueDayFromRules :: "DueDateRules option \<Rightarrow> int option" where
  "extractDueDayFromRules rules =
     (case rules of None \<Rightarrow> None | Some r \<Rightarrow> orElse (dueDay r) None)"

definition extractDueMonthFromRules :: "DueDateRules option \<Rightarrow> int option" where
  "extractDueMonthFromRules rules =
     (case rules of None \<Rightarrow> None | Some r \<Rightarrow> orElse (dueMonth r) None)"

definition extractDayOfWeekFromRules :: "DueDateRules option \<Rightarrow> int option" where
  "extractDayOfWeekFromRules rules =
     (case rules of None \<Rightarrow> None | Some r \<Rightarrow> orElse (dayOfWeek r) None)"

definition extractSpecificDateFromRules :: "DueDateRules option \<Rightarrow> date option" where
  "extractSpecificDateFromRules rules =
     (case rules of None \<Rightarrow> None | Some r \<Rightarrow> specificDate r)"

definition calculateMonthlyDueDates :: "Compliance \<Rightarrow> int \<Rightarrow> date list" where
  "calculateMonthlyDueDates compliance year =
     (let dueDay = orDefault (extractDueDayFromRules (dueDateRules compliance)) 15 in
      map (\<lambda>month.
             let dueDate = newDate year month dueDay in
             if getMonth dueDate \<noteq> month then setDate dueDate 0 else dueDate)
          [0, 1, 2, 3, 4, 5, 6, 7, 8, 9, 10, 11])"

definition calculateQuarterlyDueDates :: "Compliance \<Rightarrow> int \<Rightarrow> date list" where
  "calculateQuarterlyDueDates compliance year =
     (let dueDay = orDefault (extractDueDayFromRules (dueDateRules compliance)) 15;
          quarterEndMonths = [3, 6, 9, 0] in
      map (\<lambda>month.
             let dueYear = (if month = 0 then year + 1 else year) in
             newDate dueYear month dueDay)
          quarterEndMonths)"

definition calculateHalfYearlyDueDates :: "Compliance \<Rightarrow> int \<Rightarrow> date list" where
  "calculateHalfYearlyDueDates compliance year =
     (let dueDay = orDefault (extractDueDayFromRules (dueDateRules compliance)) 15 in
      [newDate year 9 dueDay, newDate (year + 1) 3 dueDay])"

definition calculateYearlyDueDates :: "Compliance \<Rightarrow> int \<Rightarrow> date list" where
  "calculateYearlyDueDates compliance year =
     (let dueDay = orDefault (extractDueDayFromRules (dueDateRules compliance)) 15;
          dueMonth = orDefault (extractDueMonthFromRules (dueDateRules compliance)) 3 in
      [newDate year dueMonth dueDay])"

text \<open>
  The first loop of \<open>calculateWeeklyDueDates\<close> advances day by day until \<open>getDay\<close> equals the
  wanted day of the week; for a wanted day outside 0 to 6 it never ends, so its result is
  an option, \<open>None\<close> standing for a call that does not return.
\<close>

partial_function (option) firstOccurrence :: "int \<Rightarrow> date \<Rightarrow> date option" where
  "firstOccurrence wanted currentDate =
     (if getDay currentDate \<noteq> wanted
      then firstOccurrence wanted (setDate currentDate (getDate currentDate + 1))
      else Some currentDate)"

declare firstOccurrence.simps [code]

function allOccurrences :: "date \<Rightarrow> date \<Rightarrow> date list" where
  "allOccurrences endDate currentDate =
     (if currentDate \<le> endDate
      then currentDate # allOccurrences endDate (setDate currentDate (getDate currentDate + 7))
      else [])"
  by pat_completeness auto
termination
  by (relation "measure (\<lambda>(endDate, currentDate). nat (endDate + 1 - currentDate))")
     (simp_all add: setDate_getDate_plus)

definition calculateWeeklyDueDates :: "Compliance \<Rightarrow> int \<Rightarrow> date list option" where
  "calculateWeeklyDueDates compliance year =
     (let dayOfWeek = orDefault (extractDayOfWeekFromRules (dueDateRules compliance)) 1;
          startDate = newDate year 0 1;
          endDate = newDate year 11 31 in
      do {
        currentDate \<leftarrow> firstOccurrence dayOfWeek startDate;
        Some (allOccurrences endDate currentDate)
      })"

function businessDays :: "date \<Rightarrow> date \<Rightarrow> date list" where
  "businessDays endDate currentDate =
     (if currentDate \<le> endDate
      then (if getDay currentDate \<noteq> 0 \<and> getDay currentDate \<noteq> 6 then [currentDate] else [])
           @ businessDays endDate (setDate currentDate (getDate currentDate + 1))
      else [])"
  by pat_completeness auto
termination
  by (relation "measure (\<lambda>(endDate, currentDate). nat (endDate + 1 - currentDate))")
     (simp_all add: setDate_getDate_plus)

definition calculateDailyDueDates :: "Compliance \<Rightarrow> int \<Rightarrow> date list" where
  "calculateDailyDueDates compliance year =
     (let startDate = newDate year 0 1;
          endDate = newDate year 11 31 in
      businessDays endDate startDate)"

definition calculateOneTimeDueDates :: "Compliance \<Rightarrow> int \<Rightarrow> date list" where
  "calculateOneTimeDueDates compliance year =
     (case extractSpecificDateFromRules (dueDateRules compliance) of
        Some parsedDate \<Rightarrow> if getFullYear parsedDate = year then [parsedDate] else []
      | None \<Rightarrow> [])"

subsection \<open>Holidays and weekends\<close>

definition isWeekend :: "date \<Rightarrow> bool" where
  "isWeekend d = (getDay d = 0 \<or> getDay d = 6)"

definition weekendRank :: "date \<Rightarrow> nat" where
  "weekendRank d = (if getDay d = 6 then 2 else if getDay d = 0 then 1 else 0)"

lemma getDay_succ: "getDay (d + 1) = (getDay d + 1) mod 7"
  by (simp add: getDay_def WeekDay_def mod_simps add.commute add.left_commute)

lemma getDay_range: "0 \<le> getDay d" "getDay d < 7"
  by (simp_all add: getDay_def WeekDay_def)

lemma weekendRank_succ: "isWeekend d \<Longrightarrow> weekendRank (d + 1) < weekendRank d"
  by (auto simp: isWeekend_def weekendRank_def getDay_succ)

lemma weekendRank_le: "weekendRank d \<le> 2"
  by (simp add: weekendRank_def)

function skipWeekend :: "date \<Rightarrow> date" where
  "skipWeekend adjustedDate =
     (if getDay adjustedDate = 0 \<or> getDay adjustedDate = 6
      then skipWeekend (setDate adjustedDate (getDate adjustedDate + 1))
      else adjustedDate)"
  by pat_completeness auto
termination
proof (relation "measure weekendRank")
  fix adjustedDate :: date
  assume "getDay adjustedDate = 0 \<or> getDay adjustedDate = 6"
  then show "(setDate adjustedDate (getDate adjustedDate + 1), adjustedDate) \<in> measure weekendRank"
    using weekendRank_succ[of adjustedDate] by (simp add: setDate_getDate_plus isWeekend_def)
qed simp

definition isListed :: "IndianHoliday list \<Rightarrow> date \<Rightarrow> bool" where
  "isListed holidays d = list_ex (\<lambda>holiday. date holiday = d) holidays"

definition lastListed :: "IndianHoliday list \<Rightarrow> date \<Rightarrow> date" where
  "lastListed holidays d = fold max (map date holidays) d"

definition blockedRank :: "IndianHoliday list \<Rightarrow> date \<Rightarrow> nat" where
  "blockedRank holidays d = 3 * nat (lastListed holidays 0 + 1 - d) + weekendRank d"

lemma lastListed_ge: "isListed holidays d \<Longrightarrow> d \<le> lastListed holidays b"
proof -
  have "\<And>b. x \<in> set xs \<Longrightarrow> x \<le> fold max xs b" for x :: int and xs
  proof (induction xs)
    case Nil
    then show ?case by simp
  next
    case (Cons a xs)
    have mono: "\<And>b. b \<le> fold max xs b"
      by (induction xs) (auto intro: order_trans[OF max.cobounded2])
    show ?case
    proof (cases "x = a")
      case True
      then show ?thesis using mono[of "max a b"] by simp
    next
      case False
      then show ?thesis using Cons by simp
    qed
  qed
  then show "isListed holidays d \<Longrightarrow> d \<le> lastListed holidays b"
    by (auto simp: isListed_def lastListed_def list_ex_iff)
qed

lemma blockedRank_succ:
  assumes "isWeekend d \<or> isListed holidays d"
  shows "blockedRank holidays (d + 1) < blockedRank holidays d"
proof (cases "d \<le> lastListed holidays 0")
  case True
  then have "nat (lastListed holidays 0 + 1 - (d + 1)) + 1 = nat (lastListed holidays 0 + 1 - d)"
    by simp
  then show ?thesis
    using weekendRank_le[of "d + 1"] unfolding blockedRank_def by linarith
next
  case False
  then have "\<not> isListed holidays d" using lastListed_ge[of holidays d 0] by auto
  then have "isWeekend d" using assms by simp
  then show ?thesis using False weekendRank_succ[of d] by (simp add: blockedRank_def)
qed

function nextBusinessDay :: "IndianHoliday list \<Rightarrow> date \<Rightarrow> date" where
  "nextBusinessDay holidays adjustedDate =
     (let adjustedDate = setDate adjustedDate (getDate adjustedDate + 1) in
      if getDay adjustedDate = 0 \<or> getDay adjustedDate = 6 \<or> isListed holidays adjustedDate
      then nextBusinessDay holidays adjustedDate
      else adjustedDate)"
  by pat_completeness auto
termination
proof (relation "measure (\<lambda>(holidays, d). blockedRank holidays (d + 1))")
  fix holidays :: "IndianHoliday list" and adjustedDate x :: date
  assume x: "x = setDate adjustedDate (getDate adjustedDate + 1)"
    and b: "getDay x = 0 \<or> getDay x = 6 \<or> isListed holidays x"
  have "x = adjustedDate + 1" using x by (simp add: setDate_getDate_plus)
  then show "((holidays, x), (holidays, adjustedDate))
      \<in> measure (\<lambda>(holidays, d). blockedRank holidays (d + 1))"
    using blockedRank_succ[of x holidays] b by (auto simp: isWeekend_def)
qed simp

declare allOccurrences.simps [simp del] businessDays.simps [simp del]
  skipWeekend.simps [simp del] nextBusinessDay.simps [simp del]

definition adjustForHolidaysAndWeekends :: "holidayMap \<Rightarrow> date \<Rightarrow> date" where
  "adjustForHolidaysAndWeekends indianHolidays d =
     (let adjustedDate = skipWeekend d;
          yearKey = getFullYear adjustedDate;
          holidays = (case indianHolidays yearKey of Some hs \<Rightarrow> hs | None \<Rightarrow> []);
          isHoliday = isListed holidays adjustedDate in
      if isHoliday then nextBusinessDay holidays adjustedDate else adjustedDate)"

text \<open>
  The constructor fills the holiday table for the current year and the two years after it;
  the current year is a parameter.
\<close>

definition holidaysOfYear :: "int \<Rightarrow> IndianHoliday list" where
  "holidaysOfYear year =
     [\<lparr>date = newDate year 0 26, holidayName = ''Republic Day'', isNational = True\<rparr>,
      \<lparr>date = newDate year 7 15, holidayName = ''Independence Day'', isNational = True\<rparr>,
      \<lparr>date = newDate year 9 2, holidayName = ''Gandhi Jayanti'', isNational = True\<rparr>,
      \<lparr>date = newDate year 2 8, holidayName = ''Holi'', isNational = False\<rparr>,
      \<lparr>date = newDate year 3 14, holidayName = ''Ram Navami'', isNational = False\<rparr>,
      \<lparr>date = newDate year 7 19, holidayName = ''Janmashtami'', isNational = False\<rparr>,
      \<lparr>date = newDate year 9 24, holidayName = ''Dussehra'', isNational = False\<rparr>,
      \<lparr>date = newDate year 10 12, holidayName = ''Diwali'', isNational = False\<rparr>,
      \<lparr>date = newDate year 11 25, holidayName = ''Christmas'', isNational = True\<rparr>]"

definition initializeHolidays :: "int \<Rightarrow> holidayMap" where
  "initializeHolidays currentYear =
     fold (\<lambda>year m. m(year \<mapsto> holidaysOfYear year))
          [currentYear, currentYear + 1, currentYear + 2] Map.empty"

definition getHolidays :: "holidayMap \<Rightarrow> int \<Rightarrow> IndianHoliday list" where
  "getHolidays indianHolidays year =
     (case indianHolidays year of Some hs \<Rightarrow> hs | None \<Rightarrow> [])"

definition isHoliday :: "holidayMap \<Rightarrow> date \<Rightarrow> bool" where
  "isHoliday indianHolidays d =
     (let yearKey = getFullYear d;
          holidays = (case indianHolidays yearKey of Some hs \<Rightarrow> hs | None \<Rightarrow> []) in
      isListed holidays d)"

definition getNextBusinessDay :: "holidayMap \<Rightarrow> date \<Rightarrow> date" where
  "getNextBusinessDay indianHolidays d = adjustForHolidaysAndWeekends indianHolidays d"

subsection \<open>Dispatch on the periodicity, inside try and catch\<close>

text \<open>
  \<open>calculateDueDates\<close> calls the methods of \<open>this\<close> inside a \<open>try\<close> block. To make the
  \<open>catch\<close> branch a branch of the model, the methods are a record of functions that may
  raise (\<open>Inl\<close>) or not return (\<open>None\<close>); \<open>DueDateCalculator\<close> is the object of the source,
  whose methods never raise.
\<close>

datatype error =
    NotFoundError string
  | UniqueConstraintViolation
  | DatabaseError string
  | Exception string

type_synonym 'a attempt = "(error + 'a) option"

record Calculator =
  monthlyMethod :: "Compliance \<Rightarrow> int \<Rightarrow> date list attempt"
  quarterlyMethod :: "Compliance \<Rightarrow> int \<Rightarrow> date list attempt"
  halfYearlyMethod :: "Compliance \<Rightarrow> int \<Rightarrow> date list attempt"
  yearlyMethod :: "Compliance \<Rightarrow> int \<Rightarrow> date list attempt"
  weeklyMethod :: "Compliance \<Rightarrow> int \<Rightarrow> date list attempt"
  dailyMethod :: "Compliance \<Rightarrow> int \<Rightarrow> date list attempt"
  oneTimeMethod :: "Compliance \<Rightarrow> int \<Rightarrow> date list attempt"
  adjustMethod :: "date \<Rightarrow> error + date"

fun mapThrowing :: "('a \<Rightarrow> error + 'b) \<Rightarrow> 'a list \<Rightarrow> error + 'b list" where
  "mapThrowing f [] = Inr []"
| "mapThrowing f (x # xs) =
     (case f x of
        Inl e \<Rightarrow> Inl e
      | Inr y \<Rightarrow> (case mapThrowing f xs of Inl e \<Rightarrow> Inl e | Inr ys \<Rightarrow> Inr (y # ys)))"

definition switchPeriodicity :: "Calculator \<Rightarrow> Compliance \<Rightarrow> int \<Rightarrow> date list attempt" where
  "switchPeriodicity this compliance year =
     (case periodicity compliance of
        MONTHLY \<Rightarrow> monthlyMethod this compliance year
      | QUARTERLY \<Rightarrow> quarterlyMethod this compliance year
      | HALF_YEARLY \<Rightarrow> halfYearlyMethod this compliance year
      | YEARLY \<Rightarrow> yearlyMethod this compliance year
      | WEEKLY \<Rightarrow> weeklyMethod this compliance year
      | DAILY \<Rightarrow> dailyMethod this compliance year
      | ONE_TIME \<Rightarrow> oneTimeMethod this compliance year
      | EVENT_BASED \<Rightarrow> Some (Inr [])
      | OtherPeriodicity other \<Rightarrow> Some (Inr []))"

definition calculateDueDatesOn :: "Calculator \<Rightarrow> Compliance \<Rightarrow> int \<Rightarrow> date list option" where
  "calculateDueDatesOn this compliance year =
     (case switchPeriodicity this compliance year of
        None \<Rightarrow> None
      | Some (Inl err) \<Rightarrow> Some []
      | Some (Inr dueDates) \<Rightarrow>
          (case mapThrowing (adjustMethod this) dueDates of
             Inl err \<Rightarrow> Some []
           | Inr adjusted \<Rightarrow> Some adjusted))"

definition returning :: "'a \<Rightarrow> 'a attempt" where
  "returning v = Some (Inr v)"

definition DueDateCalculator :: "holidayMap \<Rightarrow> Calculator" where
  "DueDateCalculator indianHolidays =
     \<lparr>monthlyMethod = (\<lambda>c y. returning (calculateMonthlyDueDates c y)),
      quarterlyMethod = (\<lambda>c y. returning (calculateQuarterlyDueDates c y)),
      halfYearlyMethod = (\<lambda>c y. returning (calculateHalfYearlyDueDates c y)),
      yearlyMethod = (\<lambda>c y. returning (calculateYearlyDueDates c y)),
      weeklyMethod = (\<lambda>c y. map_option Inr (calculateWeeklyDueDates c y)),
      dailyMethod = (\<lambda>c y. returning (calculateDailyDueDates c y)),
      oneTimeMethod = (\<lambda>c y. returning (calculateOneTimeDueDates c y)),
      adjustMethod = (\<lambda>d. Inr (adjustForHolidaysAndWeekends indianHolidays d))\<rparr>"

definition calculateDueDates :: "holidayMap \<Rightarrow> Compliance \<Rightarrow> int \<Rightarrow> date list option" where
  "calculateDueDates indianHolidays compliance year =
     calculateDueDatesOn (DueDateCalculator indianHolidays) compliance year"

definition rawDueDates :: "Compliance \<Rightarrow> int \<Rightarrow> date list option" where
  "rawDueDates compliance year =
     (case periodicity compliance of
        MONTHLY \<Rightarrow> Some (calculateMonthlyDueDates compliance year)
      | QUARTERLY \<Rightarrow> Some (calculateQuarterlyDueDates compliance year)
      | HALF_YEARLY \<Rightarrow> Some (calculateHalfYearlyDueDates compliance year)
      | YEARLY \<Rightarrow> Some (calculateYearlyDueDates compliance year)
      | WEEKLY \<Rightarrow> calculateWeeklyDueDates compliance year
      | DAILY \<Rightarrow> Some (calculateDailyDueDates compliance year)
      | ONE_TIME \<Rightarrow> Some (calculateOneTimeDueDates compliance year)
      | EVENT_BASED \<Rightarrow> Some []
      | OtherPeriodicity other \<Rightarrow> Some [])"

lemma mapThrowing_Inr: "mapThrowing (\<lambda>x. Inr (f x)) xs = Inr (map f xs)"
  by (induction xs) simp_all

lemma calculateDueDates_eq:
  "calculateDueDates indianHolidays compliance year =
     map_option (map (adjustForHolidaysAndWeekends indianHolidays)) (rawDueDates compliance year)"
  by (cases "periodicity compliance"; cases "calculateWeeklyDueDates compliance year")
     (simp_all add: calculateDueDates_def calculateDueDatesOn_def switchPeriodicity_def
        DueDateCalculator_def rawDueDates_def returning_def mapThrowing_Inr)

section \<open>Task generation\<close>

text \<open>
  \<open>TaskController.generateTasks\<close>: the rows the handler reads and writes, the request, and
  the handler itself. The database is passed in and returned; \<open>createMany\<close> on the task
  table is a parameter, since the schema of the store is not part of the sources. The audit
  log and the logger cannot fail the call (\<open>AuditService.log\<close> catches its own errors) and are
  left out.
\<close>

record User =
  userId :: string
  userTenantId :: string

record Entity =
  entityKey :: string
  entityTenantId :: string
  entityClientId :: string
  entityType :: string
  legalName :: string

record Task =
  tenantId :: string
  clientId :: string
  entityId :: string
  complianceId :: "string option"
  title :: string
  description :: string
  taskType :: string
  dueDate :: date
  priority :: string
  createdBy :: string
  tags :: "string list"

record Database =
  entities :: "Entity list"
  compliances :: "Compliance list"
  tasks :: "Task list"

record GenerateRequest =
  reqUser :: "User option"
  reqEntityId :: string
  reqYear :: "int option"
  reqComplianceIds :: "string list option"

type_synonym createManyOp = "Task list \<Rightarrow> Task list \<Rightarrow> error + (Task list \<times> nat)"

definition findEntity :: "Database \<Rightarrow> string \<Rightarrow> string \<Rightarrow> Entity option" where
  "findEntity db eid tid =
     find (\<lambda>e. entityKey e = eid \<and> entityTenantId e = tid) (entities db)"

definition findCompliances :: "Database \<Rightarrow> Entity \<Rightarrow> string list option \<Rightarrow> Compliance list" where
  "findCompliances db entity complianceIdList =
     (case complianceIdList of
        Some ids \<Rightarrow>
          if 0 < length ids
          then filter (\<lambda>c. complianceKey c \<in> set ids \<and> isActive c) (compliances db)
          else filter (\<lambda>c. isActive c \<and> entityType entity \<in> set (entityTypes c)) (compliances db)
      | None \<Rightarrow>
          filter (\<lambda>c. isActive c \<and> entityType entity \<in> set (entityTypes c)) (compliances db))"

definition inPeriodOf :: "date \<Rightarrow> date \<Rightarrow> bool" where
  "inPeriodOf d taskDue =
     (newDate (getFullYear d) (getMonth d) 1 \<le> taskDue
      \<and> taskDue < newDate (getFullYear d) (getMonth d + 1) 1)"

definition existingTask :: "Task list \<Rightarrow> string \<Rightarrow> string \<Rightarrow> string \<Rightarrow> date \<Rightarrow> Task option" where
  "existingTask table tid eid cid d =
     find (\<lambda>t. tenantId t = tid \<and> entityId t = eid \<and> complianceId t = Some cid
               \<and> inPeriodOf d (dueDate t)) table"

definition newTask :: "User \<Rightarrow> Entity \<Rightarrow> string \<Rightarrow> Compliance \<Rightarrow> date \<Rightarrow> Task" where
  "newTask usr entity eid compliance d =
     \<lparr>tenantId = userTenantId usr,
      clientId = entityClientId entity,
      entityId = eid,
      complianceId = Some (complianceKey compliance),
      title = complianceName compliance @ '' - '' @ legalName entity,
      description = complianceDescription compliance,
      taskType = ''COMPLIANCE'',
      dueDate = d,
      priority = ''MEDIUM'',
      createdBy = userId usr,
      tags = [category compliance, entityType entity]\<rparr>"

fun stageDueDates ::
  "Task list \<Rightarrow> User \<Rightarrow> Entity \<Rightarrow> string \<Rightarrow> Compliance \<Rightarrow> date list \<Rightarrow> Task list" where
  "stageDueDates table usr entity eid compliance [] = []"
| "stageDueDates table usr entity eid compliance (d # dueDates) =
     (case existingTask table (userTenantId usr) eid (complianceKey compliance) d of
        None \<Rightarrow> newTask usr entity eid compliance d
                 # stageDueDates table usr entity eid compliance dueDates
      | Some found \<Rightarrow> stageDueDates table usr entity eid compliance dueDates)"

fun stageCompliances ::
  "Calculator \<Rightarrow> int \<Rightarrow> Task list \<Rightarrow> User \<Rightarrow> Entity \<Rightarrow> string \<Rightarrow> Compliance list
     \<Rightarrow> Task list option" where
  "stageCompliances dueDateCalculator yr table usr entity eid [] = Some []"
| "stageCompliances dueDateCalculator yr table usr entity eid (compliance # rest) =
     do {
       dueDates \<leftarrow> calculateDueDatesOn dueDateCalculator compliance yr;
       staged \<leftarrow> stageCompliances dueDateCalculator yr table usr entity eid rest;
       Some (stageDueDates table usr entity eid compliance dueDates @ staged)
     }"

definition insertStaged :: "createManyOp \<Rightarrow> Database \<Rightarrow> Task list \<Rightarrow> error + (Database \<times> nat)" where
  "insertStaged createMany db tasksToCreate =
     (if length tasksToCreate = 0 then Inr (db, 0)
      else (case createMany tasksToCreate (tasks db) of
              Inl err \<Rightarrow> Inl err
            | Inr (table, count) \<Rightarrow> Inr (db\<lparr>tasks := table\<rparr>, count)))"

definition generateTasks ::
  "createManyOp \<Rightarrow> Calculator \<Rightarrow> int \<Rightarrow> Database \<Rightarrow> GenerateRequest
     \<Rightarrow> (error + (Database \<times> nat)) option" where
  "generateTasks createMany dueDateCalculator currentYear db req =
     (case reqUser req of
        None \<Rightarrow> Some (Inl (NotFoundError ''User not found''))
      | Some usr \<Rightarrow>
          (let yr = (case reqYear req of Some y \<Rightarrow> y | None \<Rightarrow> currentYear) in
           case findEntity db (reqEntityId req) (userTenantId usr) of
             None \<Rightarrow> Some (Inl (NotFoundError ''Entity not found''))
           | Some entity \<Rightarrow>
               do {
                 tasksToCreate \<leftarrow>
                   stageCompliances dueDateCalculator yr (tasks db) usr entity (reqEntityId req)
                     (findCompliances db entity (reqComplianceIds req));
                 Some (insertStaged createMany db tasksToCreate)
               }))"

definition periodKey :: "Task \<Rightarrow> string \<times> string \<times> string option \<times> int \<times> int" where
  "periodKey t =
     (tenantId t, entityId t, complianceId t, getFullYear (dueDate t), getMonth (dueDate t))"

definition generated :: "Task list \<Rightarrow> Task list" where
  "generated table = filter (\<lambda>t. complianceId t \<noteq> None) table"

definition atMostOnePerPeriod :: "Task list \<Rightarrow> bool" where
  "atMostOnePerPeriod table = distinct (map periodKey (generated table))"

text \<open>
  Modelled from the spec: the schema of the task store is missing from the sources. The
  spec requires a storage-level uniqueness constraint on (tenant, entity, compliance,
  period); a bulk insert that would break it raises a uniqueness violation and inserts
  nothing.
\<close>

definition uniqueCreateMany :: createManyOp where
  "uniqueCreateMany rows table =
     (if atMostOnePerPeriod (table @ rows)
      then Inr (table @ rows, length rows)
      else Inl UniqueConstraintViolation)"

section \<open>Auxiliary notions and example data\<close>

text \<open>The year, month (from 0) and day of the month of a date.\<close>

definition civil :: "date \<Rightarrow> int \<times> int \<times> int" where
  "civil d = (getFullYear d, getMonth d, getDate d)"

text \<open>The month after a month, and the body of the loop of \<open>calculateMonthlyDueDates\<close>.\<close>

definition nextMonth :: "int \<Rightarrow> int \<Rightarrow> int \<times> int" where
  "nextMonth y m = (if m = 11 then (y + 1, 0) else (y, m + 1))"

definition monthlyDueDate :: "int \<Rightarrow> int \<Rightarrow> int \<Rightarrow> date" where
  "monthlyDueDate year dd month =
     (let dueDate = newDate year month dd in
      if getMonth dueDate \<noteq> month then setDate dueDate 0 else dueDate)"

text \<open>
  The task store a call leaves behind: the database of a successful call, and the database
  as it was when the call ends with an error (an insert that raises inserts nothing).
\<close>

definition storeAfter :: "Database \<Rightarrow> error + (Database \<times> nat) \<Rightarrow> Database" where
  "storeAfter db res = (case res of Inl err \<Rightarrow> db | Inr (db', count) \<Rightarrow> db')"

text \<open>
  The days of the built-in holidays, counted from the first day of their year; \<open>l\<close> is 1
  in a leap year and 0 otherwise.
\<close>

definition holidayOffsets :: "int \<Rightarrow> int list" where
  "holidayOffsets l = [25, 226 + l, 274 + l, 66 + l, 103 + l, 230 + l, 296 + l, 315 + l, 358 + l]"

text \<open>Example data: a compliance of the catalog, a calculator whose monthly method raises,
  a user, an entity of another type, an inactive compliance, a database and a request.\<close>

definition exampleRules :: DueDateRules where
  "exampleRules = \<lparr>dueDay = None, dueMonth = None, dayOfWeek = None, specificDate = None\<rparr>"

definition exampleCompliance :: "Periodicity \<Rightarrow> DueDateRules option \<Rightarrow> Compliance" where
  "exampleCompliance p rules =
     \<lparr>complianceKey = ''cmp-1'', complianceName = ''GST Return'',
      complianceDescription = ''Periodic filing'', category = ''GST'',
      periodicity = p, dueDateRules = rules,
      entityTypes = [''PRIVATE_LIMITED''], isActive = True\<rparr>"

definition failingCalculator :: Calculator where
  "failingCalculator =
     (DueDateCalculator (initializeHolidays 2024))
       \<lparr>monthlyMethod := (\<lambda>c y. Some (Inl (Exception ''Invalid time value'')))\<rparr>"

definition exampleUser :: User where
  "exampleUser = \<lparr>userId = ''u-1'', userTenantId = ''t-1''\<rparr>"

definition exampleEntity :: Entity where
  "exampleEntity =
     \<lparr>entityKey = ''e-1'', entityTenantId = ''t-1'', entityClientId = ''cl-1'',
      entityType = ''LLP'', legalName = ''Acme LLP''\<rparr>"

definition inactiveCompliance :: Compliance where
  "inactiveCompliance =
     (exampleCompliance YEARLY None)\<lparr>complianceKey := ''cmp-2'', isActive := False\<rparr>"

definition exampleDb :: "Compliance list \<Rightarrow> Task list \<Rightarrow> Database" where
  "exampleDb catalog table = \<lparr>entities = [exampleEntity], compliances = catalog, tasks = table\<rparr>"

definition exampleRequest :: "string list option \<Rightarrow> GenerateRequest" where
  "exampleRequest ids =
     \<lparr>reqUser = Some exampleUser, reqEntityId = ''e-1'', reqYear = Some 2024,
      reqComplianceIds = ids\<rparr>"

definition aprilTask :: Task where
  "aprilTask = newTask exampleUser exampleEntity ''e-1'' (exampleCompliance YEARLY None)
                 (newDate 2024 3 15)"

definition julyTask :: Task where
  "julyTask = newTask exampleUser exampleEntity ''e-1'' (exampleCompliance QUARTERLY None)
                (newDate 2024 6 20)"

section \<open>Rule fields, weekly and quarterly due dates\<close>

lemma newDate_civil:
  assumes "0 \<le> m" "m \<le> 11" "1 \<le> d" "d \<le> daysInMonth (fullYear year) m"
  shows "getFullYear (newDate year m d) = fullYear year"
    and "getMonth (newDate year m d) = m"
    and "getDate (newDate year m d) = d"
  using civil_of_MakeDay[OF assms]
  by (simp_all add: newDate_def getFullYear_def getMonth_def getDate_def)

lemma orElse_None [simp]: "orElse v None = (case v of None \<Rightarrow> None | Some n \<Rightarrow> if n = 0 then None else Some n)"
  by (simp add: orElse_def)

lemma firstOccurrence_at:
  "getDay (d + int n) = w \<Longrightarrow> (\<forall>k<n. getDay (d + int k) \<noteq> w)
     \<Longrightarrow> firstOccurrence w d = Some (d + int n)"
proof (induction n arbitrary: d)
  case 0
  then show ?case by (subst firstOccurrence.simps) simp
next
  case (Suc n)
  from Suc.prems(2) have ne: "getDay d \<noteq> w" by force
  have 1: "getDay (d + 1 + int n) = w" using Suc.prems(1) by (simp add: algebra_simps)
  have 2: "\<forall>k<n. getDay (d + 1 + int k) \<noteq> w"
  proof (intro allI impI)
    fix k assume "k < n"
    then have "getDay (d + int (Suc k)) \<noteq> w" using Suc.prems(2) by blast
    then show "getDay (d + 1 + int k) \<noteq> w" by (simp add: algebra_simps)
  qed
  from Suc.IH[OF 1 2] have "firstOccurrence w (d + 1) = Some (d + int (Suc n))"
    by (simp add: algebra_simps)
  with ne show ?case
    by (subst firstOccurrence.simps) (simp add: setDate_getDate_plus)
qed

lemma getDay_reachable:
  assumes "0 \<le> w" "w < 7"
  shows "getDay (d + int (nat ((w - (d + 4)) mod 7))) = w"
proof -
  have "(d + 4 + (w - (d + 4)) mod 7) mod 7 = (d + 4 + (w - (d + 4))) mod 7"
    by (rule mod_add_right_eq)
  also have "\<dots> = w" using assms by simp
  finally show ?thesis by (simp add: getDay_def WeekDay_def algebra_simps)
qed

lemma firstOccurrence_returns:
  assumes "0 \<le> w" "w < 7"
  shows "\<exists>r. firstOccurrence w d = Some r \<and> getDay r = w \<and> d \<le> r \<and> r < d + 7"
proof -
  define P where "P n \<longleftrightarrow> getDay (d + int n) = w" for n
  define n0 where "n0 = nat ((w - (d + 4)) mod 7)"
  have P0: "P n0" unfolding P_def n0_def by (rule getDay_reachable[OF assms])
  define n where "n = (LEAST n. P n)"
  have Pn: "P n" unfolding n_def using P0 by (rule LeastI)
  have least: "\<forall>k<n. \<not> P k" unfolding n_def using not_less_Least by blast
  have "n \<le> n0" unfolding n_def using P0 by (rule Least_le)
  moreover have "n0 < 7" unfolding n0_def by simp
  ultimately have "n < 7" by simp
  moreover have "firstOccurrence w d = Some (d + int n)"
    using Pn least unfolding P_def by (intro firstOccurrence_at) auto
  ultimately show ?thesis using Pn unfolding P_def by simp
qed

lemma getDay_add7: "getDay (d + 7) = getDay d"
proof -
  have "d + 7 + 4 = (d + 4) + 7" by simp
  then show ?thesis unfolding getDay_def WeekDay_def by (metis mod_add_self2)
qed

lemma allOccurrences_getDay:
  "list_all (\<lambda>x. getDay x = getDay d) (allOccurrences endDate d)"
proof (induction endDate d rule: allOccurrences.induct)
  case (1 endDate currentDate)
  show ?case
    using 1 by (subst allOccurrences.simps) (simp add: setDate_getDate_plus getDay_add7)
qed


lemma calculateWeeklyDueDates_returns:
  assumes "0 \<le> orDefault (extractDayOfWeekFromRules (dueDateRules c)) 1"
    and "orDefault (extractDayOfWeekFromRules (dueDateRules c)) 1 < 7"
  shows "\<exists>ds. calculateWeeklyDueDates c year = Some ds
           \<and> list_all (\<lambda>d. getDay d = orDefault (extractDayOfWeekFromRules (dueDateRules c)) 1) ds"
proof -
  define w where "w = orDefault (extractDayOfWeekFromRules (dueDateRules c)) 1"
  obtain r where r: "firstOccurrence w (newDate year 0 1) = Some r" "getDay r = w"
    using firstOccurrence_returns[of w "newDate year 0 1"] assms unfolding w_def by blast
  have "calculateWeeklyDueDates c year = Some (allOccurrences (newDate year 11 31) r)"
    using r(1) by (simp add: calculateWeeklyDueDates_def w_def Let_def)
  moreover have "list_all (\<lambda>d. getDay d = w) (allOccurrences (newDate year 11 31) r)"
    using allOccurrences_getDay[of r "newDate year 11 31"] r(2) by simp
  ultimately show ?thesis unfolding w_def by blast
qed





lemma civil_newDate:
  assumes "0 \<le> m" "m \<le> 11" "1 \<le> d" "d \<le> daysInMonth (fullYear year) m"
  shows "civil (newDate year m d) = (fullYear year, m, d)"
  using newDate_civil[OF assms] by (simp add: civil_def)

lemma calculateQuarterlyDueDates_eq:
  "calculateQuarterlyDueDates c year =
     [newDate year 3 (orDefault (extractDueDayFromRules (dueDateRules c)) 15),
      newDate year 6 (orDefault (extractDueDayFromRules (dueDateRules c)) 15),
      newDate year 9 (orDefault (extractDueDayFromRules (dueDateRules c)) 15),
      newDate (year + 1) 0 (orDefault (extractDueDayFromRules (dueDateRules c)) 15)]"
  by (simp add: calculateQuarterlyDueDates_def Let_def)

lemma exampleCompliance_sel [simp]:
  "periodicity (exampleCompliance p rules) = p"
  "dueDateRules (exampleCompliance p rules) = rules"
  "isActive (exampleCompliance p rules) = True"
  "complianceKey (exampleCompliance p rules) = ''cmp-1''"
  "entityTypes (exampleCompliance p rules) = [''PRIVATE_LIMITED'']"
  by (simp_all add: exampleCompliance_def)

lemma extract_None [simp]:
  "extractDueDayFromRules None = None"
  "extractDueMonthFromRules None = None"
  "extractDayOfWeekFromRules None = None"
  "extractSpecificDateFromRules None = None"
  by (simp_all add: extractDueDayFromRules_def extractDueMonthFromRules_def
        extractDayOfWeekFromRules_def extractSpecificDateFromRules_def)

lemma orDefault_None [simp]: "orDefault None d = d"
  by (simp add: orDefault_def)

lemma adjust_2024_quarterly:
  "adjustForHolidaysAndWeekends (initializeHolidays 2024) (newDate 2024 3 15) = newDate 2024 3 15"
  "adjustForHolidaysAndWeekends (initializeHolidays 2024) (newDate 2024 6 15) = newDate 2024 6 15"
  "adjustForHolidaysAndWeekends (initializeHolidays 2024) (newDate 2024 9 15) = newDate 2024 9 15"
  "adjustForHolidaysAndWeekends (initializeHolidays 2024) (newDate 2025 0 15) = newDate 2025 0 15"
  by code_simp+

text \<open>
  Claim C1, as stated, asks for the fourth QUARTERLY anchor in April of the next year. For
  the year 2024 and the default day 15 the calculator returns 15 April, 15 July and
  15 October 2024 and 15 January 2025: the fourth date lies in January, not in April.
\<close>
theorem quarterly_fourth_anchor_is_january:
  "calculateDueDates (initializeHolidays 2024) (exampleCompliance QUARTERLY None) 2024
     = Some [newDate 2024 3 15, newDate 2024 6 15, newDate 2024 9 15, newDate 2025 0 15]
   \<and> civil (newDate 2025 0 15) = (2025, 0, 15)
   \<and> map civil (calculateQuarterlyDueDates (exampleCompliance QUARTERLY None) 2024)
       \<noteq> [(2024, 3, 15), (2024, 6, 15), (2024, 9, 15), (2025, 3, 15)]"
proof (intro conjI)
  show "calculateDueDates (initializeHolidays 2024) (exampleCompliance QUARTERLY None) 2024
     = Some [newDate 2024 3 15, newDate 2024 6 15, newDate 2024 9 15, newDate 2025 0 15]"
    by (simp add: calculateDueDates_eq rawDueDates_def calculateQuarterlyDueDates_eq
          adjust_2024_quarterly)
  show c4: "civil (newDate 2025 0 15) = (2025, 0, 15)"
    by (subst civil_newDate) (simp_all add: daysInMonth_def fullYear_def)
  show "map civil (calculateQuarterlyDueDates (exampleCompliance QUARTERLY None) 2024)
       \<noteq> [(2024, 3, 15), (2024, 6, 15), (2024, 9, 15), (2025, 3, 15)]"
    using c4 by (simp add: calculateQuarterlyDueDates_eq)
qed


text \<open>
  Claim C1, amended. For every QUARTERLY compliance and every year \<open>Y\<close>, \<open>calculateDueDates\<close>
  returns exactly four dates: the business-day adjustments of the anchors
  \<open>new Date(Y, 3, d)\<close>, \<open>new Date(Y, 6, d)\<close>, \<open>new Date(Y, 9, d)\<close> and \<open>new Date(Y + 1, 0, d)\<close>,
  where \<open>d\<close> is \<open>rule.dueDay\<close> (default 15). For \<open>1 \<le> d \<le> 30\<close> these anchors are day \<open>d\<close> of
  April, July and October of year \<open>Y\<close> and of January of year \<open>Y + 1\<close> (years as the Date
  constructor reads them), hence never in March, June, September or December.
\<close>
theorem quarterly_anchors:
  "periodicity c = QUARTERLY \<longrightarrow>
     calculateDueDates hm c year =
       Some (map (adjustForHolidaysAndWeekends hm)
              [newDate year 3 (orDefault (extractDueDayFromRules (dueDateRules c)) 15),
               newDate year 6 (orDefault (extractDueDayFromRules (dueDateRules c)) 15),
               newDate year 9 (orDefault (extractDueDayFromRules (dueDateRules c)) 15),
               newDate (year + 1) 0 (orDefault (extractDueDayFromRules (dueDateRules c)) 15)])
     \<and> (1 \<le> orDefault (extractDueDayFromRules (dueDateRules c)) 15
          \<and> orDefault (extractDueDayFromRules (dueDateRules c)) 15 \<le> 30 \<longrightarrow>
        map civil (calculateQuarterlyDueDates c year)
          = [(fullYear year, 3, orDefault (extractDueDayFromRules (dueDateRules c)) 15),
             (fullYear year, 6, orDefault (extractDueDayFromRules (dueDateRules c)) 15),
             (fullYear year, 9, orDefault (extractDueDayFromRules (dueDateRules c)) 15),
             (fullYear (year + 1), 0, orDefault (extractDueDayFromRules (dueDateRules c)) 15)])"
proof (intro impI conjI)
  assume "periodicity c = QUARTERLY"
  then show "calculateDueDates hm c year =
       Some (map (adjustForHolidaysAndWeekends hm)
              [newDate year 3 (orDefault (extractDueDayFromRules (dueDateRules c)) 15),
               newDate year 6 (orDefault (extractDueDayFromRules (dueDateRules c)) 15),
               newDate year 9 (orDefault (extractDueDayFromRules (dueDateRules c)) 15),
               newDate (year + 1) 0 (orDefault (extractDueDayFromRules (dueDateRules c)) 15)])"
    by (simp add: calculateDueDates_eq rawDueDates_def calculateQuarterlyDueDates_eq)
next
  define dd where "dd = orDefault (extractDueDayFromRules (dueDateRules c)) 15"
  assume "1 \<le> orDefault (extractDueDayFromRules (dueDateRules c)) 15
          \<and> orDefault (extractDueDayFromRules (dueDateRules c)) 15 \<le> 30"
  then have d: "1 \<le> dd" "dd \<le> 30" by (simp_all add: dd_def)
  have in_month: "dd \<le> daysInMonth y m" if "m = 3 \<or> m = 6 \<or> m = 9 \<or> m = 0" for y m
    using that d by (auto simp: daysInMonth_def)
  show "map civil (calculateQuarterlyDueDates c year)
          = [(fullYear year, 3, orDefault (extractDueDayFromRules (dueDateRules c)) 15),
             (fullYear year, 6, orDefault (extractDueDayFromRules (dueDateRules c)) 15),
             (fullYear year, 9, orDefault (extractDueDayFromRules (dueDateRules c)) 15),
             (fullYear (year + 1), 0, orDefault (extractDueDayFromRules (dueDateRules c)) 15)]"
    unfolding calculateQuarterlyDueDates_eq dd_def[symmetric] using d
    by (simp add: civil_newDate in_month)
qed

theorem quarterly_anchors_example:
  "calculateDueDates (initializeHolidays 2024) (exampleCompliance QUARTERLY None) 2024 =
       Some (map (adjustForHolidaysAndWeekends (initializeHolidays 2024))
              [newDate 2024 3 15, newDate 2024 6 15, newDate 2024 9 15, newDate 2025 0 15])
   \<and> map civil (calculateQuarterlyDueDates (exampleCompliance QUARTERLY None) 2024)
       = [(2024, 3, 15), (2024, 6, 15), (2024, 9, 15), (2025, 0, 15)]"
  using quarterly_anchors[of "exampleCompliance QUARTERLY None" "initializeHolidays 2024" 2024]
  by (simp add: fullYear_def)

section \<open>Monthly due dates\<close>

lemma MakeDay_next_month:
  assumes "0 \<le> m" "m \<le> 10"
  shows "MakeDay y (m + 1) d = MakeDay y m (d + daysInMonth y m)"
proof -
  have "0 \<le> m + 1" "m + 1 \<le> 11" "m \<le> 11" using assms by simp_all
  then show ?thesis
    using monthStart_next[OF assms, of y] assms(1)
    by (simp add: MakeDay_in_range)
qed

lemma MakeDay_next_year: "MakeDay (y + 1) 0 d = MakeDay y 11 (d + daysInMonth y 11)"
  using DayFromYear_Suc[of y] monthStart_December[of y]
  by (simp add: MakeDay_in_range DaysInYear_def leapDay_def monthStart_def split: if_splits)

lemma MakeDay_overflow:
  assumes "0 \<le> m" "m \<le> 11"
  shows "MakeDay y m (daysInMonth y m + k) = MakeDay (fst (nextMonth y m)) (snd (nextMonth y m)) k"
proof (cases "m = 11")
  case True
  then show ?thesis using MakeDay_next_year[of y k] by (simp add: nextMonth_def add.commute)
next
  case False
  then have "m \<le> 10" using assms by simp
  from MakeDay_next_month[OF assms(1) this, of y k] False show ?thesis
    by (simp add: nextMonth_def add.commute)
qed

lemma two_months_ge_59:
  assumes "0 \<le> m" "m \<le> 11"
  shows "59 \<le> daysInMonth y m + daysInMonth (fst (nextMonth y m)) (snd (nextMonth y m))"
  using month_cases[OF assms] leapDay_bounds[of y]
  by (elim disjE) (simp_all add: daysInMonth_def nextMonth_def)

lemma nextMonth_range:
  assumes "0 \<le> m" "m \<le> 11"
  shows "0 \<le> snd (nextMonth y m)" "snd (nextMonth y m) \<le> 11" "snd (nextMonth y m) \<noteq> m"
  using assms by (simp_all add: nextMonth_def)

lemma calculateMonthlyDueDates_eq:
  "calculateMonthlyDueDates c year =
     map (monthlyDueDate year (orDefault (extractDueDayFromRules (dueDateRules c)) 15))
       [0, 1, 2, 3, 4, 5, 6, 7, 8, 9, 10, 11]"
  by (simp add: calculateMonthlyDueDates_def monthlyDueDate_def Let_def)

lemma daysInMonth_ge: "28 \<le> daysInMonth y m"
  using leapDay_bounds[of y] by (simp add: daysInMonth_def)

lemma monthlyDueDate_clamped:
  assumes m: "0 \<le> m" "m \<le> 11" and d: "1 \<le> dd" "dd \<le> 59"
  shows "monthlyDueDate year dd m = newDate year m (min dd (daysInMonth (fullYear year) m))"
proof (cases "dd \<le> daysInMonth (fullYear year) m")
  case True
  then have "getMonth (newDate year m dd) = m" using newDate_civil(2)[OF m d(1)] by simp
  then show ?thesis using True by (simp add: monthlyDueDate_def Let_def min_def)
next
  case False
  define Y where "Y = fullYear year"
  define dim where "dim = daysInMonth Y m"
  define Y' where "Y' = fst (nextMonth Y m)"
  define m' where "m' = snd (nextMonth Y m)"
  define k where "k = dd - dim"
  have k: "1 \<le> k" "k \<le> daysInMonth Y' m'"
    using False d two_months_ge_59[OF m, of Y] by (simp_all add: k_def dim_def Y_def Y'_def m'_def)
  have m': "0 \<le> m'" "m' \<le> 11" "m' \<noteq> m"
    using nextMonth_range[OF m, of Y] by (simp_all add: m'_def)
  have t: "newDate year m dd = MakeDay Y' m' k"
    using MakeDay_overflow[OF m, of Y k] by (simp add: newDate_def Y_def dim_def Y'_def m'_def k_def)
  have civ: "YearFromTime (MakeDay Y' m' k) = Y'" "MonthFromTime (MakeDay Y' m' k) = m'"
    using civil_of_MakeDay[OF m'(1,2) k] by simp_all
  have "setDate (newDate year m dd) 0 = MakeDay Y' m' 0"
    by (simp add: setDate_def t civ)
  also have "\<dots> = MakeDay Y m dim"
    using MakeDay_overflow[OF m, of Y 0] by (simp add: dim_def Y'_def m'_def)
  finally have "setDate (newDate year m dd) 0 = newDate year m dim"
    by (simp add: newDate_def Y_def)
  moreover have "getMonth (newDate year m dd) \<noteq> m"
    using civ(2) m'(3) by (simp add: getMonth_def t)
  ultimately show ?thesis
    using False by (simp add: monthlyDueDate_def Let_def min_def dim_def Y_def)
qed

lemma civil_monthlyDueDate:
  assumes m: "0 \<le> m" "m \<le> 11" and d: "1 \<le> dd" "dd \<le> 59"
  shows "civil (monthlyDueDate year dd m) = (fullYear year, m, min dd (daysInMonth (fullYear year) m))"
proof -
  have "1 \<le> min dd (daysInMonth (fullYear year) m)"
    using d(1) daysInMonth_ge[of "fullYear year" m] by simp
  then show ?thesis
    unfolding monthlyDueDate_clamped[OF assms] using m by (intro civil_newDate) simp_all
qed

text \<open>
  Claim C6. For a MONTHLY compliance whose \<open>rule.dueDay\<close> is a day of the month (the proof
  covers every value from 1 to 59), the raw date of each month is day
  \<open>min dueDay (length of the month)\<close> of that same month and year: a due day that overflows
  the month is clamped to the month's last day and never rolls into the next month. With
  \<open>dueDay = 30\<close> the February raw date is 28 February, or 29 February in a leap year.
\<close>
theorem monthly_due_day_clamped_to_month_end:
  "periodicity c = MONTHLY
   \<and> 1 \<le> orDefault (extractDueDayFromRules (dueDateRules c)) 15
   \<and> orDefault (extractDueDayFromRules (dueDateRules c)) 15 \<le> 59 \<longrightarrow>
     rawDueDates c year = Some (calculateMonthlyDueDates c year)
     \<and> map civil (calculateMonthlyDueDates c year)
         = map (\<lambda>month. (fullYear year, month,
                  min (orDefault (extractDueDayFromRules (dueDateRules c)) 15)
                      (daysInMonth (fullYear year) month)))
             [0, 1, 2, 3, 4, 5, 6, 7, 8, 9, 10, 11]
     \<and> (orDefault (extractDueDayFromRules (dueDateRules c)) 15 = 30 \<longrightarrow>
          civil (calculateMonthlyDueDates c year ! 1)
            = (fullYear year, 1, if InLeapYear (fullYear year) then 29 else 28))"
proof (intro impI conjI; (elim conjE)?)
  define dd where "dd = orDefault (extractDueDayFromRules (dueDateRules c)) 15"
  assume p: "periodicity c = MONTHLY" and d: "1 \<le> orDefault (extractDueDayFromRules (dueDateRules c)) 15"
    "orDefault (extractDueDayFromRules (dueDateRules c)) 15 \<le> 59"
  show "rawDueDates c year = Some (calculateMonthlyDueDates c year)"
    using p by (simp add: rawDueDates_def)
  show all: "map civil (calculateMonthlyDueDates c year)
         = map (\<lambda>month. (fullYear year, month,
                  min (orDefault (extractDueDayFromRules (dueDateRules c)) 15)
                      (daysInMonth (fullYear year) month)))
             [0, 1, 2, 3, 4, 5, 6, 7, 8, 9, 10, 11]"
    using d unfolding calculateMonthlyDueDates_eq dd_def[symmetric]
    by (simp add: civil_monthlyDueDate)
  assume "orDefault (extractDueDayFromRules (dueDateRules c)) 15 = 30"
  then show "civil (calculateMonthlyDueDates c year ! 1)
            = (fullYear year, 1, if InLeapYear (fullYear year) then 29 else 28)"
    unfolding calculateMonthlyDueDates_eq
    by (simp add: civil_monthlyDueDate daysInMonth_def leapDay_def)
qed


theorem monthly_due_day_30_in_2024:
  "map civil (calculateMonthlyDueDates
                (exampleCompliance MONTHLY (Some (exampleRules\<lparr>dueDay := Some 30\<rparr>))) 2024)
     = [(2024, 0, 30), (2024, 1, 29), (2024, 2, 30), (2024, 3, 30), (2024, 4, 30), (2024, 5, 30),
        (2024, 6, 30), (2024, 7, 30), (2024, 8, 30), (2024, 9, 30), (2024, 10, 30), (2024, 11, 30)]
   \<and> civil (calculateMonthlyDueDates
                (exampleCompliance MONTHLY (Some (exampleRules\<lparr>dueDay := Some 30\<rparr>))) 2024 ! 1)
     = (2024, 1, 29)"
  using monthly_due_day_clamped_to_month_end
    [of "exampleCompliance MONTHLY (Some (exampleRules\<lparr>dueDay := Some 30\<rparr>))" 2024]
  by (simp add: extractDueDayFromRules_def exampleRules_def orDefault_def fullYear_def
        daysInMonth_def leapDay_def InLeapYear_def)

section \<open>Business-day adjustment\<close>

lemma skipWeekend_weekday: "\<not> isWeekend d \<Longrightarrow> skipWeekend d = d"
  by (subst skipWeekend.simps) (simp add: isWeekend_def)

lemma skipWeekend_not_weekend: "\<not> isWeekend (skipWeekend d)"
proof (induction d rule: skipWeekend.induct)
  case (1 d)
  show ?case
  proof (cases "isWeekend d")
    case True
    then show ?thesis using 1 by (subst skipWeekend.simps) (simp add: isWeekend_def)
  next
    case False
    then show ?thesis by (simp add: skipWeekend_weekday)
  qed
qed

lemma nextBusinessDay_unblocked:
  "\<not> isWeekend (nextBusinessDay hs d) \<and> \<not> isListed hs (nextBusinessDay hs d)"
proof (induction hs d rule: nextBusinessDay.induct)
  case (1 hs d)
  show ?case
  proof (cases "isWeekend (d + 1) \<or> isListed hs (d + 1)")
    case True
    then have "nextBusinessDay hs d = nextBusinessDay hs (d + 1)"
      by (subst nextBusinessDay.simps) (auto simp: setDate_getDate_plus isWeekend_def Let_def)
    moreover have "\<not> isWeekend (nextBusinessDay hs (d + 1)) \<and> \<not> isListed hs (nextBusinessDay hs (d + 1))"
      using "1.IH"[of "d + 1"] True by (auto simp: setDate_getDate_plus isWeekend_def)
    ultimately show ?thesis by simp
  next
    case False
    then have "nextBusinessDay hs d = d + 1"
      by (subst nextBusinessDay.simps) (auto simp: setDate_getDate_plus isWeekend_def Let_def)
    then show ?thesis using False by simp
  qed
qed

lemma nextBusinessDay_bounds:
  assumes "\<not> isWeekend (d + int k) \<and> \<not> isListed hs (d + int k)" "1 \<le> k"
  shows "d < nextBusinessDay hs d \<and> nextBusinessDay hs d \<le> d + int k"
  using assms
proof (induction k arbitrary: d)
  case 0
  then show ?case by simp
next
  case (Suc k)
  show ?case
  proof (cases "isWeekend (d + 1) \<or> isListed hs (d + 1)")
    case True
    then have eq: "nextBusinessDay hs d = nextBusinessDay hs (d + 1)"
      by (subst nextBusinessDay.simps) (auto simp: setDate_getDate_plus isWeekend_def Let_def)
    have "k \<noteq> 0" using True Suc.prems(1) by (cases k) auto
    then have k: "1 \<le> k" by simp
    have "\<not> isWeekend (d + 1 + int k) \<and> \<not> isListed hs (d + 1 + int k)"
      using Suc.prems(1) by (simp add: algebra_simps)
    from Suc.IH[OF this k] show ?thesis unfolding eq by simp
  next
    case False
    then have "nextBusinessDay hs d = d + 1"
      by (subst nextBusinessDay.simps) (auto simp: setDate_getDate_plus isWeekend_def Let_def)
    then show ?thesis by simp
  qed
qed

lemma weekday_within_three:
  "\<not> isWeekend (d + 1) \<or> \<not> isWeekend (d + 2) \<or> \<not> isWeekend (d + 3)"
proof -
  have g: "getDay (d + 2) = (getDay (d + 1) + 1) mod 7" "getDay (d + 3) = (getDay (d + 2) + 1) mod 7"
    using getDay_succ[of "d + 1"] getDay_succ[of "d + 2"] by (simp_all add: algebra_simps)
  show ?thesis
    using g getDay_range[of "d + 1"] by (auto simp: isWeekend_def)
qed

subsection \<open>The built-in holiday table\<close>

lemma initializeHolidays_lookup:
  "initializeHolidays cy y =
     (if y = cy \<or> y = cy + 1 \<or> y = cy + 2 then Some (holidaysOfYear y) else None)"
  by (simp add: initializeHolidays_def)

lemma holidaysOfYear_dates:
  "map date (holidaysOfYear y)
     = map (\<lambda>off. DayFromYear (fullYear y) + off) (holidayOffsets (leapDay (fullYear y)))"
  by (simp add: holidaysOfYear_def holidayOffsets_def newDate_def MakeDay_in_range monthStart_def)

lemma isListed_holidaysOfYear:
  "isListed (holidaysOfYear y) x
     \<longleftrightarrow> x - DayFromYear (fullYear y) \<in> set (holidayOffsets (leapDay (fullYear y)))"
proof -
  have "isListed (holidaysOfYear y) x \<longleftrightarrow> x \<in> set (map date (holidaysOfYear y))"
    by (auto simp: isListed_def list_ex_iff)
  also have "\<dots> \<longleftrightarrow> x - DayFromYear (fullYear y) \<in> set (holidayOffsets (leapDay (fullYear y)))"
  proof
    assume "x \<in> set (map date (holidaysOfYear y))"
    then show "x - DayFromYear (fullYear y) \<in> set (holidayOffsets (leapDay (fullYear y)))"
      unfolding holidaysOfYear_dates by auto
  next
    assume "x - DayFromYear (fullYear y) \<in> set (holidayOffsets (leapDay (fullYear y)))"
    then have "DayFromYear (fullYear y) + (x - DayFromYear (fullYear y))
        \<in> (\<lambda>off. DayFromYear (fullYear y) + off) ` set (holidayOffsets (leapDay (fullYear y)))"
      by (rule imageI)
    then show "x \<in> set (map date (holidaysOfYear y))"
      unfolding holidaysOfYear_dates by simp
  qed
  finally show ?thesis .
qed

lemma holidayOffsets_range:
  assumes "0 \<le> l" "l \<le> 1" "off \<in> set (holidayOffsets l)"
  shows "0 \<le> off" "off + 3 < 365 + l"
  using assms by (auto simp: holidayOffsets_def)

lemma holidayOffsets_apart:
  assumes "0 \<le> l" "l \<le> 1" "off \<in> set (holidayOffsets l)" "1 \<le> k" "k \<le> 3"
  shows "off + k \<notin> set (holidayOffsets l)"
  using assms by (auto simp: holidayOffsets_def)

lemma listed_year:
  assumes "isListed (holidaysOfYear y) x"
  shows "getFullYear x = fullYear y"
proof -
  define off where "off = x - DayFromYear (fullYear y)"
  have mem: "off \<in> set (holidayOffsets (leapDay (fullYear y)))"
    using assms by (simp add: isListed_holidaysOfYear off_def)
  have r: "0 \<le> off" "off + 3 < 365 + leapDay (fullYear y)"
    using holidayOffsets_range[OF leapDay_bounds mem] by simp_all
  have "DayFromYear (fullYear y) \<le> x" "x < DayFromYear (fullYear y + 1)"
    using r DayFromYear_Suc[of "fullYear y"]
    by (simp_all add: off_def DaysInYear_def leapDay_def split: if_splits)
  then show ?thesis unfolding getFullYear_def by (rule YearFromTime_unique)
qed

lemma nextBusinessDay_after_listed:
  assumes "isListed (holidaysOfYear y) a"
  shows "getFullYear (nextBusinessDay (holidaysOfYear y) a) = fullYear y"
proof -
  define Y where "Y = fullYear y"
  define l where "l = leapDay Y"
  define off where "off = a - DayFromYear Y"
  define r where "r = nextBusinessDay (holidaysOfYear y) a"
  have mem: "off \<in> set (holidayOffsets l)"
    using assms by (simp add: isListed_holidaysOfYear off_def Y_def l_def)
  have lb: "0 \<le> l" "l \<le> 1" using leapDay_bounds[of Y] by (simp_all add: l_def)
  have unlisted: "\<not> isListed (holidaysOfYear y) (a + k)" if "1 \<le> k" "k \<le> 3" for k
    using holidayOffsets_apart[OF lb mem that]
    by (simp add: isListed_holidaysOfYear off_def Y_def l_def algebra_simps)
  obtain k :: nat where k: "1 \<le> k" "k \<le> 3" "\<not> isWeekend (a + int k)"
  proof -
    from weekday_within_three[of a] consider "\<not> isWeekend (a + 1)" | "\<not> isWeekend (a + 2)"
      | "\<not> isWeekend (a + 3)" by blast
    then show ?thesis
    proof cases
      case 1 then show ?thesis using that[of 1] by simp
    next
      case 2 then show ?thesis using that[of 2] by simp
    next
      case 3 then show ?thesis using that[of 3] by simp
    qed
  qed
  have "\<not> isWeekend (a + int k) \<and> \<not> isListed (holidaysOfYear y) (a + int k)"
    using k unlisted[of "int k"] by simp
  from nextBusinessDay_bounds[OF this k(1)] have rb: "a < r" "r \<le> a + 3"
    using k(2) by (simp_all add: r_def)
  have ob: "0 \<le> off" "off + 3 < 365 + l"
    using holidayOffsets_range[OF lb mem] by simp_all
  have "DayFromYear Y \<le> r" "r < DayFromYear (Y + 1)"
    using rb ob DayFromYear_Suc[of Y]
    by (simp_all add: off_def DaysInYear_def leapDay_def l_def split: if_splits)
  then have "YearFromTime r = Y" by (rule YearFromTime_unique)
  then show ?thesis by (simp add: getFullYear_def r_def Y_def)
qed

lemma adjust_is_business_day:
  "\<not> isWeekend (adjustForHolidaysAndWeekends (initializeHolidays cy) d)
   \<and> \<not> isHoliday (initializeHolidays cy) (adjustForHolidaysAndWeekends (initializeHolidays cy) d)"
proof -
  define hm where "hm = initializeHolidays cy"
  define a where "a = skipWeekend d"
  define hs where "hs = (case hm (getFullYear a) of Some hs \<Rightarrow> hs | None \<Rightarrow> [])"
  have a: "\<not> isWeekend a" by (simp add: a_def skipWeekend_not_weekend)
  have adj: "adjustForHolidaysAndWeekends hm d = (if isListed hs a then nextBusinessDay hs a else a)"
    by (simp add: adjustForHolidaysAndWeekends_def Let_def a_def hs_def)
  show ?thesis
  proof (cases "isListed hs a")
    case False
    then show ?thesis
      unfolding hm_def[symmetric] adj using a by (simp add: isHoliday_def Let_def hs_def)
  next
    case True
    then have ne: "hs \<noteq> []" by (auto simp: isListed_def)
    then have hs: "hm (getFullYear a) = Some (holidaysOfYear (getFullYear a))"
      "hs = holidaysOfYear (getFullYear a)"
      by (auto simp: hs_def hm_def initializeHolidays_lookup split: if_splits)
    have "getFullYear a = fullYear (getFullYear a)"
      using listed_year[of "getFullYear a" a] True hs(2) by simp
    then have yr: "getFullYear (nextBusinessDay hs a) = getFullYear a"
      using nextBusinessDay_after_listed[of "getFullYear a" a] True hs(2) by simp
    show ?thesis
      unfolding hm_def[symmetric] adj using True nextBusinessDay_unblocked[of hs a]
      by (simp add: isHoliday_def Let_def yr hs(1) hs(2)[symmetric])
  qed
qed

lemma adjust_fixed_point:
  assumes "\<not> isWeekend d" "\<not> isHoliday hm d"
  shows "adjustForHolidaysAndWeekends hm d = d"
  using assms
  by (simp add: adjustForHolidaysAndWeekends_def Let_def skipWeekend_weekday isHoliday_def)


lemma rawDueDates_returns:
  assumes "periodicity c = WEEKLY \<longrightarrow>
             0 \<le> orDefault (extractDayOfWeekFromRules (dueDateRules c)) 1
             \<and> orDefault (extractDayOfWeekFromRules (dueDateRules c)) 1 < 7"
  shows "\<exists>ds. rawDueDates c year = Some ds"
proof (cases "periodicity c = WEEKLY")
  case True
  then show ?thesis
    using calculateWeeklyDueDates_returns[of c year] assms by (auto simp: rawDueDates_def)
next
  case False
  then show ?thesis by (cases "periodicity c") (simp_all add: rawDueDates_def)
qed

lemma yearly_august_2025:
  "calculateDueDates (initializeHolidays 2025)
     (exampleCompliance YEARLY (Some (exampleRules\<lparr>dueMonth := Some 7\<rparr>))) 2025
   = Some [adjustForHolidaysAndWeekends (initializeHolidays 2025) (newDate 2025 7 15)]"
  by (simp add: calculateDueDates_eq rawDueDates_def calculateYearlyDueDates_def
        extractDueDayFromRules_def extractDueMonthFromRules_def exampleRules_def orDefault_def)

lemma adjust_august_2025:
  "adjustForHolidaysAndWeekends (initializeHolidays 2025) (newDate 2025 7 15) = newDate 2025 7 18"
  "getDay (newDate 2025 7 15) = 5"
  "getDay (newDate 2025 7 18) = 1"
  by code_simp+

text \<open>
  Claim C5. Every date returned by \<open>calculateDueDates\<close>, for every compliance and year and
  for the holiday table built by the constructor in any current year, is a business day: it
  is not a Saturday (6), not a Sunday (0), and \<open>isHoliday\<close>, which looks the date up in the
  holiday list of the year the date itself falls in, is false for it. The calculation
  returns whenever the weekly day of the week, if used, is one of 0 to 6.
\<close>
theorem returned_dates_are_business_days:
  "(calculateDueDates (initializeHolidays currentYear) c year = Some ds \<longrightarrow>
      list_all (\<lambda>d. getDay d \<noteq> 6 \<and> getDay d \<noteq> 0
                     \<and> \<not> isHoliday (initializeHolidays currentYear) d) ds)
   \<and> ((periodicity c = WEEKLY \<longrightarrow>
          0 \<le> orDefault (extractDayOfWeekFromRules (dueDateRules c)) 1
          \<and> orDefault (extractDayOfWeekFromRules (dueDateRules c)) 1 < 7) \<longrightarrow>
        calculateDueDates (initializeHolidays currentYear) c year \<noteq> None)"
proof (intro conjI impI)
  assume "calculateDueDates (initializeHolidays currentYear) c year = Some ds"
  then obtain raw where "ds = map (adjustForHolidaysAndWeekends (initializeHolidays currentYear)) raw"
    by (auto simp: calculateDueDates_eq)
  then show "list_all (\<lambda>d. getDay d \<noteq> 6 \<and> getDay d \<noteq> 0
                     \<and> \<not> isHoliday (initializeHolidays currentYear) d) ds"
    using adjust_is_business_day[of currentYear]
    by (auto simp: list_all_iff isWeekend_def)
next
  assume "periodicity c = WEEKLY \<longrightarrow>
          0 \<le> orDefault (extractDayOfWeekFromRules (dueDateRules c)) 1
          \<and> orDefault (extractDayOfWeekFromRules (dueDateRules c)) 1 < 7"
  from rawDueDates_returns[OF this, of year]
  show "calculateDueDates (initializeHolidays currentYear) c year \<noteq> None"
    by (auto simp: calculateDueDates_eq)
qed

theorem independence_day_2025_moves_to_monday:
  "calculateDueDates (initializeHolidays 2025)
     (exampleCompliance YEARLY (Some (exampleRules\<lparr>dueMonth := Some 7\<rparr>))) 2025
     = Some [newDate 2025 7 18]
   \<and> list_all (\<lambda>d. getDay d \<noteq> 6 \<and> getDay d \<noteq> 0 \<and> \<not> isHoliday (initializeHolidays 2025) d)
        [newDate 2025 7 18]
   \<and> isHoliday (initializeHolidays 2025) (newDate 2025 7 15)"
proof -
  have 1: "calculateDueDates (initializeHolidays 2025)
     (exampleCompliance YEARLY (Some (exampleRules\<lparr>dueMonth := Some 7\<rparr>))) 2025
     = Some [newDate 2025 7 18]"
    by (simp add: yearly_august_2025 adjust_august_2025)
  have 2: "isHoliday (initializeHolidays 2025) (newDate 2025 7 15)"
    using newDate_civil(1)[of 7 15 2025]
    by (simp add: isHoliday_def Let_def initializeHolidays_lookup daysInMonth_def fullYear_def
          isListed_def holidaysOfYear_def)
  from returned_dates_are_business_days[of 2025
      "exampleCompliance YEARLY (Some (exampleRules\<lparr>dueMonth := Some 7\<rparr>))" 2025 "[newDate 2025 7 18]"] 1 2
  show ?thesis by simp
qed

text \<open>
  Claim C7. The business-day adjustment is idempotent: for every date \<open>d\<close> (and the holiday
  table of any construction year) adjusting the adjusted date returns it unchanged, for
  \<open>adjustForHolidaysAndWeekends\<close> and for its public name \<open>getNextBusinessDay\<close>.
\<close>
theorem adjustment_idempotent:
  "adjustForHolidaysAndWeekends (initializeHolidays currentYear)
       (adjustForHolidaysAndWeekends (initializeHolidays currentYear) d)
     = adjustForHolidaysAndWeekends (initializeHolidays currentYear) d
   \<and> getNextBusinessDay (initializeHolidays currentYear)
       (getNextBusinessDay (initializeHolidays currentYear) d)
     = getNextBusinessDay (initializeHolidays currentYear) d"
  using adjust_is_business_day[of currentYear d]
  by (simp add: getNextBusinessDay_def adjust_fixed_point)

theorem adjustment_idempotent_august_2025:
  "adjustForHolidaysAndWeekends (initializeHolidays 2025)
       (adjustForHolidaysAndWeekends (initializeHolidays 2025) (newDate 2025 7 15))
     = newDate 2025 7 18
   \<and> adjustForHolidaysAndWeekends (initializeHolidays 2025) (newDate 2025 7 15) = newDate 2025 7 18"
  using adjustment_idempotent[of 2025 "newDate 2025 7 15"]
  by (simp add: adjust_august_2025)

section \<open>Failures inside the calculator\<close>

lemma mapThrowing_fails:
  "x \<in> set xs \<Longrightarrow> f x = Inl e \<Longrightarrow> \<exists>e'. mapThrowing f xs = Inl e'"
  by (induction xs) (auto split: sum.splits)

lemma DueDateCalculator_never_throws:
  "switchPeriodicity (DueDateCalculator hm) c yr \<noteq> Some (Inl e)"
  by (cases "periodicity c")
     (auto simp: switchPeriodicity_def DueDateCalculator_def returning_def)

text \<open>
  Claim C8. Whatever the methods of the calculator object do, \<open>calculateDueDates\<close> never
  propagates an exception: when the periodicity handler raises, or when the adjustment
  raises on one of the raw dates, the catch block turns the result into the empty list. A
  caller that iterates over many compliances (the staging loop of \<open>generateTasks\<close>) goes on
  with the remaining compliances, the failing one contributing no task.
\<close>
theorem exception_yields_empty_list:
  "(switchPeriodicity this c yr = Some (Inl e) \<longrightarrow> calculateDueDatesOn this c yr = Some [])
   \<and> (switchPeriodicity this c yr = Some (Inr dueDates) \<and> d \<in> set dueDates
        \<and> adjustMethod this d = Inl e \<longrightarrow> calculateDueDatesOn this c yr = Some [])
   \<and> (switchPeriodicity this c yr = Some (Inl e) \<longrightarrow>
        stageCompliances this yr table usr entity eid (c # rest)
          = stageCompliances this yr table usr entity eid rest)"
proof (intro conjI impI)
  assume "switchPeriodicity this c yr = Some (Inl e)"
  then show 1: "calculateDueDatesOn this c yr = Some []"
    by (simp add: calculateDueDatesOn_def)
  then show "stageCompliances this yr table usr entity eid (c # rest)
          = stageCompliances this yr table usr entity eid rest"
    by (cases "stageCompliances this yr table usr entity eid rest") simp_all
next
  assume a: "switchPeriodicity this c yr = Some (Inr dueDates) \<and> d \<in> set dueDates
        \<and> adjustMethod this d = Inl e"
  then obtain e' where "mapThrowing (adjustMethod this) dueDates = Inl e'"
    using mapThrowing_fails[of d dueDates "adjustMethod this" e] by blast
  then show "calculateDueDatesOn this c yr = Some []"
    using a by (simp add: calculateDueDatesOn_def)
qed

theorem failing_monthly_method_yields_empty_list:
  "calculateDueDatesOn failingCalculator (exampleCompliance MONTHLY None) 2024 = Some []"
proof -
  have "switchPeriodicity failingCalculator (exampleCompliance MONTHLY None) 2024
          = Some (Inl (Exception ''Invalid time value''))"
    by (simp add: switchPeriodicity_def failingCalculator_def)
  with exception_yields_empty_list[of failingCalculator "exampleCompliance MONTHLY None" 2024
      "Exception ''Invalid time value''"]
  show ?thesis by simp
qed

section \<open>Staging\<close>

lemma stageDueDates_eq:
  "stageDueDates table usr entity eid c ds
     = map (newTask usr entity eid c)
         (filter (\<lambda>d. existingTask table (userTenantId usr) eid (complianceKey c) d = None) ds)"
  by (induction ds) (auto split: option.splits)

lemma stageCompliances_Some:
  "stageCompliances calc yr table usr entity eid cs = Some staged \<Longrightarrow>
     (\<forall>c \<in> set cs. calculateDueDatesOn calc c yr \<noteq> None)
     \<and> staged = concat (map (\<lambda>c. stageDueDates table usr entity eid c
                                     (the (calculateDueDatesOn calc c yr))) cs)"
proof (induction cs arbitrary: staged)
  case Nil
  then show ?case by simp
next
  case (Cons c cs)
  from Cons.prems obtain ds rest where
    ds: "calculateDueDatesOn calc c yr = Some ds"
    and rest: "stageCompliances calc yr table usr entity eid cs = Some rest"
    and st: "staged = stageDueDates table usr entity eid c ds @ rest"
    by (auto simp: bind_eq_Some_conv)
  from Cons.IH[OF rest] ds st show ?case by simp
qed

lemma stageCompliances_total:
  "(\<forall>c \<in> set cs. calculateDueDatesOn calc c yr \<noteq> None) \<Longrightarrow>
     \<exists>staged. stageCompliances calc yr table usr entity eid cs = Some staged"
  by (induction cs) auto

lemma existingTask_None_iff:
  "existingTask table tid eid cid d = None \<longleftrightarrow>
     (\<forall>t \<in> set table. \<not> (tenantId t = tid \<and> entityId t = eid \<and> complianceId t = Some cid
                            \<and> inPeriodOf d (dueDate t)))"
  by (auto simp: existingTask_def find_None_iff)

lemma staged_member:
  assumes "stageCompliances calc yr table usr entity eid cs = Some staged"
    and "c \<in> set cs" "calculateDueDatesOn calc c yr = Some ds" "d \<in> set ds"
    and "existingTask table (userTenantId usr) eid (complianceKey c) d = None"
  shows "newTask usr entity eid c d \<in> set staged"
  using stageCompliances_Some[OF assms(1)] assms(2-5)
  by (auto simp: stageDueDates_eq intro!: bexI[of _ c])

lemma staged_origin:
  assumes "stageCompliances calc yr table usr entity eid cs = Some staged" "t \<in> set staged"
  shows "\<exists>c \<in> set cs. \<exists>ds. calculateDueDatesOn calc c yr = Some ds \<and>
           (\<exists>d \<in> set ds. t = newTask usr entity eid c d
              \<and> existingTask table (userTenantId usr) eid (complianceKey c) d = None)"
proof -
  from stageCompliances_Some[OF assms(1)] assms(2)
  obtain c where c: "c \<in> set cs" "calculateDueDatesOn calc c yr \<noteq> None"
    "t \<in> set (stageDueDates table usr entity eid c (the (calculateDueDatesOn calc c yr)))"
    by auto
  then obtain ds where ds: "calculateDueDatesOn calc c yr = Some ds" by auto
  with c(3) show ?thesis using c(1) by (auto simp: stageDueDates_eq)
qed

section \<open>Selecting the compliances\<close>

text \<open>
  Claim C10. With a non-empty explicit \<open>complianceIds\<close> list the compliances are selected by
  id and active flag only: the entity-type filter is not applied, so an active listed
  compliance whose entity types do not contain the entity's type is selected and its due
  dates are staged. Inactive compliances are never selected, listed or not.
\<close>
theorem explicit_ids_bypass_entity_type_filter:
  "(ids \<noteq> [] \<longrightarrow>
      findCompliances db entity (Some ids)
        = filter (\<lambda>c. complianceKey c \<in> set ids \<and> isActive c) (compliances db))
   \<and> (ids \<noteq> [] \<and> c \<in> set (compliances db) \<and> isActive c \<and> complianceKey c \<in> set ids
        \<and> entityType entity \<notin> set (entityTypes c) \<longrightarrow>
        c \<in> set (findCompliances db entity (Some ids)))
   \<and> (ids \<noteq> [] \<and> c \<in> set (compliances db) \<and> isActive c \<and> complianceKey c \<in> set ids
        \<and> entityType entity \<notin> set (entityTypes c)
        \<and> stageCompliances calc yr table usr entity eid (findCompliances db entity (Some ids))
            = Some staged
        \<and> calculateDueDatesOn calc c yr = Some ds \<and> d \<in> set ds
        \<and> existingTask table (userTenantId usr) eid (complianceKey c) d = None \<longrightarrow>
        newTask usr entity eid c d \<in> set staged)
   \<and> (\<not> isActive c \<longrightarrow> c \<notin> set (findCompliances db entity idList))
   \<and> (idList = None \<or> idList = Some [] \<longrightarrow>
        findCompliances db entity idList
          = filter (\<lambda>c. isActive c \<and> entityType entity \<in> set (entityTypes c)) (compliances db))"
proof (intro conjI impI; (elim conjE)?)
  assume "ids \<noteq> []"
  then show "findCompliances db entity (Some ids)
        = filter (\<lambda>c. complianceKey c \<in> set ids \<and> isActive c) (compliances db)"
    by (simp add: findCompliances_def)
next
  assume "ids \<noteq> []" "c \<in> set (compliances db)" "isActive c" "complianceKey c \<in> set ids"
  then show "c \<in> set (findCompliances db entity (Some ids))"
    by (simp add: findCompliances_def)
next
  assume a: "ids \<noteq> []" "c \<in> set (compliances db)" "isActive c" "complianceKey c \<in> set ids"
    and st: "stageCompliances calc yr table usr entity eid (findCompliances db entity (Some ids))
            = Some staged"
    and ds: "calculateDueDatesOn calc c yr = Some ds" "d \<in> set ds"
      "existingTask table (userTenantId usr) eid (complianceKey c) d = None"
  from a have "c \<in> set (findCompliances db entity (Some ids))"
    by (simp add: findCompliances_def)
  from staged_member[OF st this ds] show "newTask usr entity eid c d \<in> set staged" .
next
  assume "\<not> isActive c"
  then show "c \<notin> set (findCompliances db entity idList)"
    by (auto simp: findCompliances_def split: option.splits)
next
  assume "idList = None \<or> idList = Some []"
  then show "findCompliances db entity idList
          = filter (\<lambda>c. isActive c \<and> entityType entity \<in> set (entityTypes c)) (compliances db)"
    by (auto simp: findCompliances_def)
qed


section \<open>Evaluating the examples\<close>

lemma example_sel [simp]:
  "reqUser (exampleRequest ids) = Some exampleUser"
  "reqEntityId (exampleRequest ids) = ''e-1''"
  "reqYear (exampleRequest ids) = Some 2024"
  "reqComplianceIds (exampleRequest ids) = ids"
  "entities (exampleDb catalog table) = [exampleEntity]"
  "compliances (exampleDb catalog table) = catalog"
  "tasks (exampleDb catalog table) = table"
  "(exampleDb catalog table)\<lparr>tasks := table'\<rparr> = exampleDb catalog table'"
  "userTenantId exampleUser = ''t-1''"
  "entityType exampleEntity = ''LLP''"
  "findEntity (exampleDb catalog table) ''e-1'' ''t-1'' = Some exampleEntity"
  by (simp_all add: exampleRequest_def exampleDb_def exampleUser_def exampleEntity_def
        findEntity_def)

lemma inactiveCompliance_sel [simp]:
  "isActive inactiveCompliance = False"
  "complianceKey inactiveCompliance = ''cmp-2''"
  by (simp_all add: inactiveCompliance_def exampleCompliance_def)

lemma yearly_2024:
  "calculateDueDatesOn (DueDateCalculator (initializeHolidays 2024))
     (exampleCompliance YEARLY None) 2024 = Some [newDate 2024 3 15]"
  unfolding calculateDueDates_def[symmetric]
  by (simp add: calculateDueDates_eq rawDueDates_def calculateYearlyDueDates_def
        adjust_2024_quarterly)

lemma example_selected:
  "findCompliances (exampleDb [exampleCompliance YEARLY None, inactiveCompliance] table)
     exampleEntity (Some [''cmp-1'', ''cmp-2'']) = [exampleCompliance YEARLY None]"
  by (simp add: findCompliances_def)

lemma example_staged:
  "stageCompliances (DueDateCalculator (initializeHolidays 2024)) 2024 [] exampleUser
     exampleEntity ''e-1'' [exampleCompliance YEARLY None] = Some [aprilTask]"
  by (simp add: yearly_2024 existingTask_def aprilTask_def)

lemma example_generate:
  "generateTasks createMany (DueDateCalculator (initializeHolidays 2024)) 2026
     (exampleDb [exampleCompliance YEARLY None, inactiveCompliance] [])
     (exampleRequest (Some [''cmp-1'', ''cmp-2'']))
   = Some (insertStaged createMany
             (exampleDb [exampleCompliance YEARLY None, inactiveCompliance] []) [aprilTask])"
  unfolding generateTasks_def
  by (simp add: example_selected yearly_2024 existingTask_def aprilTask_def)


lemma example_first_insert:
  "insertStaged uniqueCreateMany (exampleDb catalog []) [aprilTask]
     = Inr (exampleDb catalog [aprilTask], 1)"
  by (simp add: insertStaged_def uniqueCreateMany_def atMostOnePerPeriod_def generated_def)

theorem mismatched_type_listed_compliance_is_scheduled:
  "exampleCompliance YEARLY None
     \<in> set (findCompliances (exampleDb [exampleCompliance YEARLY None, inactiveCompliance] [])
              exampleEntity (Some [''cmp-1'', ''cmp-2'']))
   \<and> inactiveCompliance
     \<notin> set (findCompliances (exampleDb [exampleCompliance YEARLY None, inactiveCompliance] [])
              exampleEntity (Some [''cmp-1'', ''cmp-2'']))
   \<and> entityType exampleEntity \<notin> set (entityTypes (exampleCompliance YEARLY None))
   \<and> generateTasks uniqueCreateMany (DueDateCalculator (initializeHolidays 2024)) 2026
         (exampleDb [exampleCompliance YEARLY None, inactiveCompliance] [])
         (exampleRequest (Some [''cmp-1'', ''cmp-2'']))
       = Some (Inr (exampleDb [exampleCompliance YEARLY None, inactiveCompliance] [aprilTask], 1))"
proof -
  note t = explicit_ids_bypass_entity_type_filter
    [where ids = "[''cmp-1'', ''cmp-2'']"
       and db = "exampleDb [exampleCompliance YEARLY None, inactiveCompliance] []"
       and entity = exampleEntity and idList = "Some [''cmp-1'', ''cmp-2'']"]
  have 1: "exampleCompliance YEARLY None
     \<in> set (findCompliances (exampleDb [exampleCompliance YEARLY None, inactiveCompliance] [])
              exampleEntity (Some [''cmp-1'', ''cmp-2'']))"
    using t[where c = "exampleCompliance YEARLY None"] by simp
  have 2: "inactiveCompliance
     \<notin> set (findCompliances (exampleDb [exampleCompliance YEARLY None, inactiveCompliance] [])
              exampleEntity (Some [''cmp-1'', ''cmp-2'']))"
    using t[where c = inactiveCompliance] inactiveCompliance_sel(1) by blast
  show ?thesis
    using 1 2 by (simp add: example_generate example_first_insert)
qed

section \<open>Failure of the bulk insert\<close>

text \<open>
  Claim C3, as stated, has \<open>generateTasks\<close> swallow a uniqueness violation of the bulk
  insert. It does not. With a store whose \<open>createMany\<close> raises the violation, the call ends
  with that error and reports no \<open>tasksCreated\<close>. The race of the claim: a call stages
  the April task against the empty store, a concurrent call inserts the same task, and the
  insert of the first call then runs against a store that enforces at most one task per
  period: it ends with the violation.
\<close>
theorem uniqueness_violation_is_surfaced:
  "generateTasks (\<lambda>rows table. Inl UniqueConstraintViolation)
       (DueDateCalculator (initializeHolidays 2024)) 2026
       (exampleDb [exampleCompliance YEARLY None, inactiveCompliance] [])
       (exampleRequest (Some [''cmp-1'', ''cmp-2'']))
     = Some (Inl UniqueConstraintViolation)
   \<and> stageCompliances (DueDateCalculator (initializeHolidays 2024)) 2024 [] exampleUser
       exampleEntity ''e-1'' [exampleCompliance YEARLY None] = Some [aprilTask]
   \<and> insertStaged uniqueCreateMany
       (exampleDb [exampleCompliance YEARLY None, inactiveCompliance] [aprilTask]) [aprilTask]
     = Inl UniqueConstraintViolation"
proof (intro conjI)
  show "generateTasks (\<lambda>rows table. Inl UniqueConstraintViolation)
       (DueDateCalculator (initializeHolidays 2024)) 2026
       (exampleDb [exampleCompliance YEARLY None, inactiveCompliance] [])
       (exampleRequest (Some [''cmp-1'', ''cmp-2'']))
     = Some (Inl UniqueConstraintViolation)"
    by (simp add: example_generate insertStaged_def)
  show "stageCompliances (DueDateCalculator (initializeHolidays 2024)) 2024 [] exampleUser
       exampleEntity ''e-1'' [exampleCompliance YEARLY None] = Some [aprilTask]"
    by (rule example_staged)
  show "insertStaged uniqueCreateMany
       (exampleDb [exampleCompliance YEARLY None, inactiveCompliance] [aprilTask]) [aprilTask]
     = Inl UniqueConstraintViolation"
    by (simp add: insertStaged_def uniqueCreateMany_def atMostOnePerPeriod_def generated_def
          aprilTask_def newTask_def)
qed

text \<open>
  Claim C3, amended. When the bulk insert of the staged tasks raises an error, a uniqueness
  violation included, \<open>generateTasks\<close> does not catch it: the insert step and the whole call
  end with that error, and no success response with a \<open>tasksCreated\<close> count is produced.
\<close>
theorem insert_error_propagates:
  "(staged \<noteq> [] \<and> createMany staged (tasks db) = Inl err \<longrightarrow>
      insertStaged createMany db staged = Inl err)
   \<and> (reqUser req = Some usr
        \<and> findEntity db (reqEntityId req) (userTenantId usr) = Some entity
        \<and> stageCompliances calc (case reqYear req of Some y \<Rightarrow> y | None \<Rightarrow> currentYear)
              (tasks db) usr entity (reqEntityId req)
              (findCompliances db entity (reqComplianceIds req)) = Some staged
        \<and> staged \<noteq> [] \<and> createMany staged (tasks db) = Inl err \<longrightarrow>
        generateTasks createMany calc currentYear db req = Some (Inl err))"
  by (auto simp: insertStaged_def generateTasks_def)

theorem insert_error_propagates_example:
  "insertStaged uniqueCreateMany
       (exampleDb [exampleCompliance YEARLY None, inactiveCompliance] [aprilTask]) [aprilTask]
     = Inl UniqueConstraintViolation"
proof -
  have "uniqueCreateMany [aprilTask] [aprilTask] = Inl UniqueConstraintViolation"
    by (simp add: uniqueCreateMany_def atMostOnePerPeriod_def generated_def aprilTask_def
          newTask_def)
  with insert_error_propagates[of "[aprilTask]" uniqueCreateMany
      "exampleDb [exampleCompliance YEARLY None, inactiveCompliance] [aprilTask]"
      UniqueConstraintViolation]
  show ?thesis by simp
qed

section \<open>The period of a due date\<close>

lemma DateFromTime_bounds:
  "1 \<le> DateFromTime t" "DateFromTime t \<le> daysInMonth (YearFromTime t) (MonthFromTime t)"
proof -
  define w where "w = DayWithinYear t"
  define l where "l = leapDay (YearFromTime t)"
  have w: "0 \<le> w" "w < 365 + l" using DayWithinYear_bounds[of t] by (simp_all add: w_def l_def)
  have l: "0 \<le> l" "l \<le> 1" using leapDay_bounds[of "YearFromTime t"] by (simp_all add: l_def)
  have M: "MonthFromTime t =
      (if w < 31 then 0 else if w < 59 + l then 1 else if w < 90 + l then 2
       else if w < 120 + l then 3 else if w < 151 + l then 4 else if w < 181 + l then 5
       else if w < 212 + l then 6 else if w < 243 + l then 7 else if w < 273 + l then 8
       else if w < 304 + l then 9 else if w < 334 + l then 10 else 11)"
    by (simp add: MonthFromTime_def Let_def w_def l_def)
  have D: "DateFromTime t = w - monthStart (MonthFromTime t) l + 1"
    by (simp add: DateFromTime_def w_def l_def)
  show "1 \<le> DateFromTime t"
    unfolding D M using w l by (simp add: monthStart_def)
  show "DateFromTime t \<le> daysInMonth (YearFromTime t) (MonthFromTime t)"
    unfolding D M using w l by (simp add: monthStart_def daysInMonth_def l_def[symmetric])
qed

lemma MakeDay_month_12: "MakeDay y 12 d = MakeDay (y + 1) 0 d"
  by (simp add: MakeDay_def Let_def)

lemma MakeDay_succ_month:
  assumes "0 \<le> m" "m \<le> 11"
  shows "MakeDay y (m + 1) 1 = MakeDay y m (daysInMonth y m + 1)"
proof (cases "m = 11")
  case True
  then show ?thesis
    using MakeDay_next_year[of y 1] by (simp add: MakeDay_month_12 add.commute)
next
  case False
  then have "m \<le> 10" using assms by simp
  from MakeDay_next_month[OF assms(1) this, of y 1] show ?thesis by (simp add: add.commute)
qed

lemma MakeDay_shift: "MakeDay y m (d + k) = MakeDay y m d + k"
  by (simp add: MakeDay_def Let_def)

lemma inPeriodOf_self:
  assumes "\<not> (0 \<le> getFullYear d \<and> getFullYear d \<le> 99)"
  shows "inPeriodOf d d"
proof -
  define Y where "Y = YearFromTime d"
  define M where "M = MonthFromTime d"
  define D where "D = DateFromTime d"
  have fy: "fullYear Y = Y" using assms by (auto simp: fullYear_def Y_def getFullYear_def)
  have M: "0 \<le> M" "M \<le> 11" using MonthFromTime_range[of d] by (simp_all add: M_def)
  have D: "1 \<le> D" "D \<le> daysInMonth Y M"
    using DateFromTime_bounds[of d] by (simp_all add: D_def Y_def M_def)
  have d: "d = MakeDay Y M 1 + (D - 1)"
    using MakeDay_decompose[of d] MakeDay_shift[of Y M 1 "D - 1"]
    by (simp add: Y_def M_def D_def)
  have n: "MakeDay Y (M + 1) 1 = MakeDay Y M 1 + daysInMonth Y M"
    using MakeDay_succ_month[OF M, of Y] MakeDay_shift[of Y M 1 "daysInMonth Y M"]
    by (simp add: add.commute)
  have "inPeriodOf d d \<longleftrightarrow> MakeDay Y M 1 \<le> d \<and> d < MakeDay Y (M + 1) 1"
    by (simp add: inPeriodOf_def newDate_def getFullYear_def getMonth_def fy
          Y_def[symmetric] M_def[symmetric])
  moreover have "MakeDay Y M 1 \<le> d" using d D by linarith
  moreover have "d < MakeDay Y (M + 1) 1" using d D n by linarith
  ultimately show ?thesis by simp
qed

lemma inPeriodOf_same_month:
  assumes "\<not> (0 \<le> getFullYear d \<and> getFullYear d \<le> 99)"
    and "getFullYear x = getFullYear d" "getMonth x = getMonth d"
  shows "inPeriodOf d x"
proof -
  have "inPeriodOf x x" using assms(1,2) by (intro inPeriodOf_self) simp
  then show ?thesis using assms(2,3) by (simp add: inPeriodOf_def)
qed


section \<open>Repeated generation\<close>

lemma findCompliances_subset: "set (findCompliances db entity ids) \<subseteq> set (compliances db)"
  by (auto simp: findCompliances_def split: option.splits)

lemma stageCompliances_eq:
  assumes "\<forall>c \<in> set cs. calculateDueDatesOn calc c yr \<noteq> None"
  shows "stageCompliances calc yr table usr entity eid cs
     = Some (concat (map (\<lambda>c. stageDueDates table usr entity eid c
                                 (the (calculateDueDatesOn calc c yr))) cs))"
  using stageCompliances_total[OF assms, of table usr entity eid]
    stageCompliances_Some[of calc yr table usr entity eid cs] by auto

lemma insertStaged_result:
  assumes "insertStaged createMany db staged = Inr (db', n)"
    and "\<forall>rows table table' k. createMany rows table = Inr (table', k)
           \<longrightarrow> set table \<union> set rows \<subseteq> set table'"
  shows "entities db' = entities db \<and> compliances db' = compliances db
         \<and> set (tasks db) \<union> set staged \<subseteq> set (tasks db')"
proof (cases "staged = []")
  case True
  then show ?thesis using assms(1) by (simp add: insertStaged_def)
next
  case False
  with assms(1) obtain table' where t: "createMany staged (tasks db) = Inr (table', n)"
    and db': "db' = db\<lparr>tasks := table'\<rparr>"
    by (auto simp: insertStaged_def split: sum.splits)
  from assms(2) t have "set (tasks db) \<union> set staged \<subseteq> set table'" by blast
  then show ?thesis using db' by simp
qed

lemma newTask_matches:
  "tenantId (newTask usr entity eid c d) = userTenantId usr"
  "entityId (newTask usr entity eid c d) = eid"
  "complianceId (newTask usr entity eid c d) = Some (complianceKey c)"
  "dueDate (newTask usr entity eid c d) = d"
  by (simp_all add: newTask_def)

text \<open>
  Claim C4. When a call of \<open>generateTasks\<close> has completed, a second call with the same
  request on the store it left (same entities, same catalog, the tasks as the first call
  left them) stages nothing and returns \<open>tasksCreated = 0\<close>, leaving the store as it is.
  Two conditions on the setting: a successful bulk insert leaves the old and the new rows
  in the task table, and the due dates lie outside the years 0 to 99, which the Date
  constructor of the period check would read as 1900 to 1999.
\<close>
theorem second_generation_creates_nothing:
  "generateTasks createMany calc currentYear db req = Some (Inr (db', n))
   \<and> (\<forall>rows table table' k. createMany rows table = Inr (table', k)
          \<longrightarrow> set table \<union> set rows \<subseteq> set table')
   \<and> (\<forall>c \<in> set (compliances db). \<forall>ds.
          calculateDueDatesOn calc c (case reqYear req of Some y \<Rightarrow> y | None \<Rightarrow> currentYear)
            = Some ds
          \<longrightarrow> (\<forall>d \<in> set ds. getFullYear d < 0 \<or> 99 < getFullYear d))
   \<longrightarrow> generateTasks createMany calc currentYear db' req = Some (Inr (db', 0))"
proof (intro impI, elim conjE)
  define yr where "yr = (case reqYear req of Some y \<Rightarrow> y | None \<Rightarrow> currentYear)"
  assume first: "generateTasks createMany calc currentYear db req = Some (Inr (db', n))"
    and store: "\<forall>rows table table' k. createMany rows table = Inr (table', k)
          \<longrightarrow> set table \<union> set rows \<subseteq> set table'"
    and years: "\<forall>c \<in> set (compliances db). \<forall>ds.
          calculateDueDatesOn calc c (case reqYear req of Some y \<Rightarrow> y | None \<Rightarrow> currentYear)
            = Some ds
          \<longrightarrow> (\<forall>d \<in> set ds. getFullYear d < 0 \<or> 99 < getFullYear d)"
  from first obtain usr where usr: "reqUser req = Some usr"
    by (auto simp: generateTasks_def split: option.splits)
  from first usr obtain entity where
    entity: "findEntity db (reqEntityId req) (userTenantId usr) = Some entity"
    by (auto simp: generateTasks_def Let_def split: option.splits)
  define eid where "eid = reqEntityId req"
  define cs where "cs = findCompliances db entity (reqComplianceIds req)"
  from first usr entity obtain staged where
    staged: "stageCompliances calc yr (tasks db) usr entity eid cs = Some staged"
    and ins: "insertStaged createMany db staged = Inr (db', n)"
    by (auto simp: generateTasks_def Let_def yr_def eid_def cs_def bind_eq_Some_conv)
  from insertStaged_result[OF ins store] have
    same: "entities db' = entities db" "compliances db' = compliances db"
    and sub: "set (tasks db) \<union> set staged \<subseteq> set (tasks db')"
    by simp_all
  from stageCompliances_Some[OF staged] have
    total: "\<forall>c \<in> set cs. calculateDueDatesOn calc c yr \<noteq> None" by simp
  have found: "existingTask (tasks db') (userTenantId usr) eid (complianceKey c) d \<noteq> None"
    if c: "c \<in> set cs" and ds: "calculateDueDatesOn calc c yr = Some ds" and d: "d \<in> set ds"
    for c ds d
  proof (cases "existingTask (tasks db) (userTenantId usr) eid (complianceKey c) d")
    case None
    from staged_member[OF staged c ds d None]
    have mem: "newTask usr entity eid c d \<in> set (tasks db')" using sub by blast
    have "c \<in> set (compliances db)" using c findCompliances_subset by (auto simp: cs_def)
    with years ds d have "getFullYear d < 0 \<or> 99 < getFullYear d"
      unfolding yr_def by blast
    then have "inPeriodOf d d" by (intro inPeriodOf_self) linarith
    then show ?thesis
      using mem unfolding existingTask_None_iff
      by (auto simp: newTask_matches intro!: bexI[of _ "newTask usr entity eid c d"])
  next
    case (Some t)
    then have "\<not> (\<forall>t \<in> set (tasks db). \<not> (tenantId t = userTenantId usr \<and> entityId t = eid
        \<and> complianceId t = Some (complianceKey c) \<and> inPeriodOf d (dueDate t)))"
      using existingTask_None_iff[of "tasks db" "userTenantId usr" eid "complianceKey c" d]
      by simp
    then show ?thesis
      unfolding existingTask_None_iff using sub by blast
  qed
  have none: "stageDueDates (tasks db') usr entity eid c (the (calculateDueDatesOn calc c yr)) = []"
    if c: "c \<in> set cs" for c
  proof -
    from total c obtain ds where ds: "calculateDueDatesOn calc c yr = Some ds" by auto
    show ?thesis
      unfolding ds stageDueDates_eq using found[OF c ds] by (auto simp: filter_empty_conv)
  qed
  have "stageCompliances calc yr (tasks db') usr entity eid cs = Some []"
    unfolding stageCompliances_eq[OF total] using none by simp
  moreover have "findEntity db' (reqEntityId req) (userTenantId usr) = Some entity"
    using entity same by (simp add: findEntity_def)
  moreover have "findCompliances db' entity (reqComplianceIds req) = cs"
    using same by (simp add: findCompliances_def cs_def split: option.splits)
  ultimately show "generateTasks createMany calc currentYear db' req = Some (Inr (db', 0))"
    using usr by (simp add: generateTasks_def Let_def yr_def eid_def insertStaged_def)
qed


lemma yearly_2024_inactive:
  "calculateDueDatesOn (DueDateCalculator (initializeHolidays 2024)) inactiveCompliance 2024
     = Some [newDate 2024 3 15]"
  unfolding calculateDueDates_def[symmetric]
  by (simp add: calculateDueDates_eq rawDueDates_def calculateYearlyDueDates_def
        adjust_2024_quarterly inactiveCompliance_def exampleCompliance_def)

lemma april_2024_year: "getFullYear (newDate 2024 3 15) = 2024"
  using newDate_civil(1)[of 3 15 2024] by (simp add: daysInMonth_def fullYear_def)

theorem second_generation_example:
  "generateTasks uniqueCreateMany (DueDateCalculator (initializeHolidays 2024)) 2026
       (exampleDb [exampleCompliance YEARLY None, inactiveCompliance] [aprilTask])
       (exampleRequest (Some [''cmp-1'', ''cmp-2'']))
     = Some (Inr (exampleDb [exampleCompliance YEARLY None, inactiveCompliance] [aprilTask], 0))"
proof -
  have first: "generateTasks uniqueCreateMany (DueDateCalculator (initializeHolidays 2024)) 2026
       (exampleDb [exampleCompliance YEARLY None, inactiveCompliance] [])
       (exampleRequest (Some [''cmp-1'', ''cmp-2'']))
     = Some (Inr (exampleDb [exampleCompliance YEARLY None, inactiveCompliance] [aprilTask], 1))"
    by (simp add: example_generate example_first_insert)
  have store: "\<forall>rows table table' k. uniqueCreateMany rows table = Inr (table', k)
          \<longrightarrow> set table \<union> set rows \<subseteq> set table'"
    by (auto simp: uniqueCreateMany_def split: if_splits)
  have years: "\<forall>c \<in> set (compliances (exampleDb [exampleCompliance YEARLY None, inactiveCompliance] [])).
      \<forall>ds. calculateDueDatesOn (DueDateCalculator (initializeHolidays 2024)) c
              (case reqYear (exampleRequest (Some [''cmp-1'', ''cmp-2''])) of
                 Some y \<Rightarrow> y | None \<Rightarrow> 2026) = Some ds
          \<longrightarrow> (\<forall>d \<in> set ds. getFullYear d < 0 \<or> 99 < getFullYear d)"
    by (auto simp: yearly_2024 yearly_2024_inactive april_2024_year)
  from second_generation_creates_nothing[of uniqueCreateMany
      "DueDateCalculator (initializeHolidays 2024)" 2026
      "exampleDb [exampleCompliance YEARLY None, inactiveCompliance] []"
      "exampleRequest (Some [''cmp-1'', ''cmp-2''])"
      "exampleDb [exampleCompliance YEARLY None, inactiveCompliance] [aprilTask]" 1]
    first store years
  show ?thesis by blast
qed

section \<open>One task per period\<close>

lemma periodKey_newTask:
  "periodKey (newTask usr entity eid c d)
     = (userTenantId usr, eid, Some (complianceKey c), getFullYear d, getMonth d)"
  by (simp add: periodKey_def newTask_def)

lemma generated_append_staged:
  assumes "stageCompliances calc yr table usr entity eid cs = Some staged"
  shows "generated (table' @ staged) = generated table' @ staged"
proof -
  have "\<forall>t \<in> set staged. complianceId t \<noteq> None"
  proof
    fix t assume "t \<in> set staged"
    from staged_origin[OF assms this] obtain c d where "t = newTask usr entity eid c d" by blast
    then show "complianceId t \<noteq> None" by (simp add: newTask_matches)
  qed
  then show ?thesis by (simp add: generated_def filter_id_conv)
qed

lemma distinct_stageDueDates:
  assumes "distinct (map (\<lambda>d. (getFullYear d, getMonth d)) ds)"
  shows "distinct (map periodKey (stageDueDates table usr entity eid c ds))"
proof -
  define P where "P d \<longleftrightarrow> existingTask table (userTenantId usr) eid (complianceKey c) d = None" for d
  define g where "g p = (userTenantId usr, eid, Some (complianceKey c), fst p, snd p)"
    for p :: "int \<times> int"
  have "map periodKey (stageDueDates table usr entity eid c ds)
      = map g (map (\<lambda>d. (getFullYear d, getMonth d)) (filter P ds))"
    unfolding stageDueDates_eq P_def[abs_def] by (simp add: periodKey_newTask g_def comp_def)
  moreover have "distinct (map (\<lambda>d. (getFullYear d, getMonth d)) (filter P ds))"
    using assms by (rule distinct_map_filter)
  moreover have "inj g" by (auto simp: inj_on_def g_def)
  ultimately show ?thesis by (simp add: distinct_map inj_on_def)
qed

lemma stageDueDates_complianceId:
  "t \<in> set (stageDueDates table usr entity eid c ds) \<Longrightarrow> complianceId t = Some (complianceKey c)"
  by (auto simp: stageDueDates_eq newTask_matches)

lemma distinct_staged:
  assumes "distinct (map complianceKey cs)"
    and "\<forall>c \<in> set cs. distinct (map periodKey (f c))"
    and "\<forall>c \<in> set cs. \<forall>t \<in> set (f c). complianceId t = Some (complianceKey c)"
  shows "distinct (map periodKey (concat (map f cs)))"
  using assms
proof (induction cs)
  case Nil
  then show ?case by simp
next
  case (Cons c cs)
  have "periodKey t \<noteq> periodKey t'"
    if t: "t \<in> set (f c)" and t': "t' \<in> set (concat (map f cs))" for t t'
  proof -
    from t' obtain c' where c': "c' \<in> set cs" "t' \<in> set (f c')" by auto
    then have "complianceId t' = Some (complianceKey c')" using Cons.prems(3) by simp
    moreover have "complianceId t = Some (complianceKey c)" using t Cons.prems(3) by simp
    moreover have "complianceKey c \<noteq> complianceKey c'" using Cons.prems(1) c'(1) by auto
    ultimately show ?thesis by (auto simp: periodKey_def)
  qed
  then have "set (map periodKey (f c)) \<inter> set (map periodKey (concat (map f cs))) = {}"
    unfolding set_map by (blast dest: sym)
  moreover have "distinct (map periodKey (concat (map f cs)))"
    using Cons by simp
  moreover have "distinct (map periodKey (f c))" using Cons.prems(2) by simp
  ultimately show ?case by (simp del: set_concat set_map)
qed

lemma distinct_findCompliances:
  "distinct (map complianceKey (compliances db))
     \<Longrightarrow> distinct (map complianceKey (findCompliances db entity ids))"
  by (auto simp: findCompliances_def distinct_map_filter split: option.splits)


lemma staged_keeps_invariant:
  assumes staged: "stageCompliances calc yr table usr entity eid cs = Some staged"
    and inv: "atMostOnePerPeriod table"
    and keys: "distinct (map complianceKey cs)"
    and months: "\<forall>c \<in> set cs. \<forall>ds. calculateDueDatesOn calc c yr = Some ds
          \<longrightarrow> distinct (map (\<lambda>d. (getFullYear d, getMonth d)) ds)
              \<and> (\<forall>d \<in> set ds. getFullYear d < 0 \<or> 99 < getFullYear d)"
  shows "atMostOnePerPeriod (table @ staged)"
proof -
  from stageCompliances_Some[OF staged] have
    total: "\<forall>c \<in> set cs. calculateDueDatesOn calc c yr \<noteq> None"
    and conc: "staged = concat (map (\<lambda>c. stageDueDates table usr entity eid c
                                     (the (calculateDueDatesOn calc c yr))) cs)"
    by simp_all
  have d_staged: "distinct (map periodKey staged)"
    unfolding conc
  proof (rule distinct_staged[OF keys]; intro ballI)
    fix c assume c: "c \<in> set cs"
    with total obtain ds where ds: "calculateDueDatesOn calc c yr = Some ds" by auto
    with months c have "distinct (map (\<lambda>d. (getFullYear d, getMonth d)) ds)" by blast
    then show "distinct (map periodKey (stageDueDates table usr entity eid c
                                     (the (calculateDueDatesOn calc c yr))))"
      unfolding ds by (simp add: distinct_stageDueDates)
  next
    fix c t assume "c \<in> set cs"
      and "t \<in> set (stageDueDates table usr entity eid c (the (calculateDueDatesOn calc c yr)))"
    then show "complianceId t = Some (complianceKey c)"
      using stageDueDates_complianceId by blast
  qed
  have disjoint: "periodKey t \<noteq> periodKey s"
    if t: "t \<in> set (generated table)" and s: "s \<in> set staged" for t s
  proof
    assume eq: "periodKey t = periodKey s"
    from staged_origin[OF staged s] obtain c ds d where
      c: "c \<in> set cs" and ds: "calculateDueDatesOn calc c yr = Some ds" and d: "d \<in> set ds"
      and s_def: "s = newTask usr entity eid c d"
      and none: "existingTask table (userTenantId usr) eid (complianceKey c) d = None"
      by blast
    from months c ds d have "getFullYear d < 0 \<or> 99 < getFullYear d" by blast
    then have yr_ok: "\<not> (0 \<le> getFullYear d \<and> getFullYear d \<le> 99)" by linarith
    from eq have k: "tenantId t = userTenantId usr" "entityId t = eid"
      "complianceId t = Some (complianceKey c)"
      "getFullYear (dueDate t) = getFullYear d" "getMonth (dueDate t) = getMonth d"
      unfolding s_def periodKey_newTask by (simp_all add: periodKey_def)
    have "inPeriodOf d (dueDate t)" using yr_ok k(4,5) by (rule inPeriodOf_same_month)
    moreover have "t \<in> set table" using t by (simp add: generated_def)
    ultimately show False
      using none k(1-3) unfolding existingTask_None_iff by blast
  qed
  have "set (map periodKey (generated table)) \<inter> set (map periodKey staged) = {}"
    unfolding set_map using disjoint by blast
  then have "distinct (map periodKey (generated table @ staged))"
    using inv d_staged by (simp add: atMostOnePerPeriod_def del: set_map)
  then show ?thesis
    unfolding atMostOnePerPeriod_def generated_append_staged[OF staged] .
qed

lemma not_distinct_concat:
  "c \<in> set cs \<Longrightarrow> \<not> distinct (map k (f c)) \<Longrightarrow> \<not> distinct (map k (concat (map f cs)))"
  by (induction cs) auto

lemma first_run_stages_every_due_date:
  assumes "\<forall>t \<in> set table. \<not> (tenantId t = userTenantId usr \<and> entityId t = eid
                                \<and> complianceId t = Some (complianceKey c))"
  shows "stageDueDates table usr entity eid c ds = map (newTask usr entity eid c) ds"
proof -
  have "\<forall>d. existingTask table (userTenantId usr) eid (complianceKey c) d = None"
    using assms unfolding existingTask_None_iff by blast
  then show ?thesis by (simp add: stageDueDates_eq)
qed

lemma repeated_month_breaks_invariant:
  assumes staged: "stageCompliances calc yr table usr entity eid cs = Some staged"
    and c: "c \<in> set cs" and ds: "calculateDueDatesOn calc c yr = Some ds"
    and first: "\<forall>t \<in> set table. \<not> (tenantId t = userTenantId usr \<and> entityId t = eid
                                     \<and> complianceId t = Some (complianceKey c))"
    and rep: "\<not> distinct (map (\<lambda>d. (getFullYear d, getMonth d)) ds)"
  shows "staged \<noteq> [] \<and> \<not> atMostOnePerPeriod (table @ staged)"
proof -
  define g where "g p = (userTenantId usr, eid, Some (complianceKey c), fst p, snd p)"
    for p :: "int \<times> int"
  define f where "f c = stageDueDates table usr entity eid c (the (calculateDueDatesOn calc c yr))"
    for c
  have conc: "staged = concat (map f cs)"
    using stageCompliances_Some[OF staged] unfolding f_def[abs_def] by simp
  have fc: "f c = map (newTask usr entity eid c) ds"
    unfolding f_def ds using first_run_stages_every_due_date[OF first] by simp
  have eq: "map periodKey (f c) = map g (map (\<lambda>d. (getFullYear d, getMonth d)) ds)"
    by (simp add: fc periodKey_newTask g_def comp_def)
  have nd: "\<not> distinct (map periodKey (f c))"
  proof
    assume "distinct (map periodKey (f c))"
    then have "distinct (map g (map (\<lambda>d. (getFullYear d, getMonth d)) ds))"
      unfolding eq .
    then have "distinct (map (\<lambda>d. (getFullYear d, getMonth d)) ds)"
      using distinct_map[of g "map (\<lambda>d. (getFullYear d, getMonth d)) ds"] by blast
    with rep show False by simp
  qed
  have "\<not> distinct (map periodKey staged)"
    unfolding conc using c nd by (rule not_distinct_concat)
  then have "\<not> distinct (map periodKey (generated table @ staged))" by simp
  then have "\<not> atMostOnePerPeriod (table @ staged)"
    unfolding atMostOnePerPeriod_def generated_append_staged[OF staged] .
  moreover have "f c \<noteq> []" using nd by auto
  then have "staged \<noteq> []" unfolding conc using c by auto
  ultimately show ?thesis by simp
qed

lemma generate_on_unique_store:
  assumes "reqUser req = Some usr"
    and "findEntity db (reqEntityId req) (userTenantId usr) = Some entity"
    and "stageCompliances calc (case reqYear req of Some y \<Rightarrow> y | None \<Rightarrow> currentYear)
           (tasks db) usr entity (reqEntityId req)
           (findCompliances db entity (reqComplianceIds req)) = Some staged"
  shows "generateTasks uniqueCreateMany calc currentYear db req
     = Some (if staged = [] then Inr (db, 0)
             else if atMostOnePerPeriod (tasks db @ staged)
             then Inr (db\<lparr>tasks := tasks db @ staged\<rparr>, length staged)
             else Inl UniqueConstraintViolation)"
  using assms by (simp add: generateTasks_def Let_def insertStaged_def uniqueCreateMany_def)


section \<open>Two generation runs on the store of the specification\<close>

lemma january_2024:
  "getDay (newDate 2024 0 1) = 1"
  "adjustForHolidaysAndWeekends (initializeHolidays 2024) (newDate 2024 0 1) = newDate 2024 0 1"
  "adjustForHolidaysAndWeekends (initializeHolidays 2024) (newDate 2024 0 8) = newDate 2024 0 8"
  "newDate 2024 0 1 \<le> newDate 2024 11 31"
  "newDate 2024 0 8 \<le> newDate 2024 11 31"
  by code_simp+

lemma weekly_2024_starts:
  "\<exists>later. calculateDueDatesOn (DueDateCalculator (initializeHolidays 2024))
              (exampleCompliance WEEKLY None) 2024
            = Some (newDate 2024 0 1 # newDate 2024 0 8 # later)"
proof -
  have 8: "newDate 2024 0 1 + 7 = newDate 2024 0 8"
    by (simp add: newDate_def MakeDay_def Let_def)
  have "firstOccurrence 1 (newDate 2024 0 1) = Some (newDate 2024 0 1)"
    by (subst firstOccurrence.simps) (simp add: january_2024)
  moreover have "allOccurrences (newDate 2024 11 31) (newDate 2024 0 1)
      = newDate 2024 0 1 # newDate 2024 0 8
          # allOccurrences (newDate 2024 11 31) (newDate 2024 0 8 + 7)"
    by (subst allOccurrences.simps, simp add: january_2024 setDate_getDate_plus 8,
        subst allOccurrences.simps, simp add: january_2024 setDate_getDate_plus)
  ultimately have "calculateWeeklyDueDates (exampleCompliance WEEKLY None) 2024
      = Some (newDate 2024 0 1 # newDate 2024 0 8
          # allOccurrences (newDate 2024 11 31) (newDate 2024 0 8 + 7))"
    by (simp add: calculateWeeklyDueDates_def Let_def)
  then show ?thesis
    unfolding calculateDueDates_def[symmetric]
    by (simp add: calculateDueDates_eq rawDueDates_def january_2024)
qed

lemma quarterly_2024:
  "calculateDueDatesOn (DueDateCalculator (initializeHolidays 2024))
     (exampleCompliance QUARTERLY None) 2024
   = Some [newDate 2024 3 15, newDate 2024 6 15, newDate 2024 9 15, newDate 2025 0 15]"
  unfolding calculateDueDates_def[symmetric]
  by (simp add: calculateDueDates_eq rawDueDates_def calculateQuarterlyDueDates_eq
        adjust_2024_quarterly)

lemma quarterly_2024_months:
  "getFullYear (newDate 2024 3 15) = 2024" "getMonth (newDate 2024 3 15) = 3"
  "getFullYear (newDate 2024 6 15) = 2024" "getMonth (newDate 2024 6 15) = 6"
  "getFullYear (newDate 2024 9 15) = 2024" "getMonth (newDate 2024 9 15) = 9"
  "getFullYear (newDate 2025 0 15) = 2025" "getMonth (newDate 2025 0 15) = 0"
  "getFullYear (newDate 2024 6 20) = 2024" "getMonth (newDate 2024 6 20) = 6"
  "getFullYear (newDate 2024 0 1) = 2024" "getMonth (newDate 2024 0 1) = 0"
  "getFullYear (newDate 2024 0 8) = 2024" "getMonth (newDate 2024 0 8) = 0"
  by (subst newDate_civil; simp add: daysInMonth_def fullYear_def)+

lemma july_2024_period:
  "inPeriodOf (newDate 2024 3 15) (newDate 2024 6 20) = False"
  "inPeriodOf (newDate 2024 6 15) (newDate 2024 6 20) = True"
  "inPeriodOf (newDate 2024 9 15) (newDate 2024 6 20) = False"
  "inPeriodOf (newDate 2025 0 15) (newDate 2024 6 20) = False"
  by code_simp+

lemma quarterly_staged_beside_july:
  "stageCompliances (DueDateCalculator (initializeHolidays 2024)) 2024 [julyTask] exampleUser
     exampleEntity ''e-1'' [exampleCompliance QUARTERLY None]
   = Some [newTask exampleUser exampleEntity ''e-1'' (exampleCompliance QUARTERLY None)
             (newDate 2024 3 15),
           newTask exampleUser exampleEntity ''e-1'' (exampleCompliance QUARTERLY None)
             (newDate 2024 9 15),
           newTask exampleUser exampleEntity ''e-1'' (exampleCompliance QUARTERLY None)
             (newDate 2025 0 15)]"
  by (simp add: quarterly_2024 existingTask_def julyTask_def newTask_def july_2024_period)


text \<open>
  Claim C2. The task store of the specification refuses an insert that would give two tasks
  to one (tenant, entity, compliance, year and month of the due date). On such a store,
  which holds at most one task per key before the call, the store that any call of
  \<open>generateTasks\<close> leaves behind holds at most one task per key, whatever the calculator
  returns and however the call ends. In particular, on a first generation run for a
  compliance whose due dates repeat a calendar month (WEEKLY, DAILY), \<open>generateTasks\<close> stages
  one task per due date without comparing them with each other, the bulk insert raises the
  uniqueness violation, the call ends with it and the store stays as it was: no month gets a
  second task. When the due dates of every selected compliance fall in pairwise different
  months (ids of the selected compliances unique, due dates outside the years 0 to 99), the
  existence check keeps the staged tasks apart from the stored ones, the insert succeeds and
  the call reports the number of tasks it staged.
\<close>
theorem store_holds_one_task_per_period:
  "(atMostOnePerPeriod (tasks db)
      \<and> generateTasks uniqueCreateMany calc currentYear db req = Some res
      \<longrightarrow> atMostOnePerPeriod (tasks (storeAfter db res)))
   \<and> (generateTasks uniqueCreateMany calc currentYear db req = Some res
        \<and> reqUser req = Some usr
        \<and> findEntity db (reqEntityId req) (userTenantId usr) = Some entity
        \<and> c \<in> set (findCompliances db entity (reqComplianceIds req))
        \<and> calculateDueDatesOn calc c (case reqYear req of Some y \<Rightarrow> y | None \<Rightarrow> currentYear)
              = Some ds
        \<and> \<not> distinct (map (\<lambda>d. (getFullYear d, getMonth d)) ds)
        \<and> (\<forall>t \<in> set (tasks db). \<not> (tenantId t = userTenantId usr
                \<and> entityId t = reqEntityId req \<and> complianceId t = Some (complianceKey c)))
        \<longrightarrow> res = Inl UniqueConstraintViolation \<and> storeAfter db res = db)
   \<and> (atMostOnePerPeriod (tasks db)
        \<and> reqUser req = Some usr
        \<and> findEntity db (reqEntityId req) (userTenantId usr) = Some entity
        \<and> distinct (map complianceKey (findCompliances db entity (reqComplianceIds req)))
        \<and> (\<forall>c \<in> set (findCompliances db entity (reqComplianceIds req)). \<exists>ds.
               calculateDueDatesOn calc c (case reqYear req of Some y \<Rightarrow> y | None \<Rightarrow> currentYear)
                 = Some ds
               \<and> distinct (map (\<lambda>d. (getFullYear d, getMonth d)) ds)
               \<and> (\<forall>d \<in> set ds. getFullYear d < 0 \<or> 99 < getFullYear d))
        \<longrightarrow> (\<exists>staged.
               stageCompliances calc (case reqYear req of Some y \<Rightarrow> y | None \<Rightarrow> currentYear)
                 (tasks db) usr entity (reqEntityId req)
                 (findCompliances db entity (reqComplianceIds req)) = Some staged
               \<and> generateTasks uniqueCreateMany calc currentYear db req
                   = Some (Inr (db\<lparr>tasks := tasks db @ staged\<rparr>, length staged))))"
proof (rule conjI[OF _ conjI]; intro impI; elim conjE)
  assume inv: "atMostOnePerPeriod (tasks db)"
    and gen: "generateTasks uniqueCreateMany calc currentYear db req = Some res"
  show "atMostOnePerPeriod (tasks (storeAfter db res))"
  proof (cases res)
    case (Inl err)
    then show ?thesis using inv by (simp add: storeAfter_def)
  next
    case (Inr r)
    obtain db' n where r: "r = (db', n)" by (cases r)
    from gen Inr r obtain usr entity staged where
      ins: "insertStaged uniqueCreateMany db staged = Inr (db', n)"
      by (auto simp: generateTasks_def Let_def bind_eq_Some_conv split: option.splits)
    then have "atMostOnePerPeriod (tasks db')"
      using inv
      by (cases "staged = []")
         (auto simp: insertStaged_def uniqueCreateMany_def split: if_splits)
    then show ?thesis using Inr r by (simp add: storeAfter_def)
  qed
next
  define yr where "yr = (case reqYear req of Some y \<Rightarrow> y | None \<Rightarrow> currentYear)"
  assume gen: "generateTasks uniqueCreateMany calc currentYear db req = Some res"
    and usr: "reqUser req = Some usr"
    and entity: "findEntity db (reqEntityId req) (userTenantId usr) = Some entity"
    and c: "c \<in> set (findCompliances db entity (reqComplianceIds req))"
    and ds: "calculateDueDatesOn calc c (case reqYear req of Some y \<Rightarrow> y | None \<Rightarrow> currentYear)
              = Some ds"
    and rep: "\<not> distinct (map (\<lambda>d. (getFullYear d, getMonth d)) ds)"
    and first: "\<forall>t \<in> set (tasks db). \<not> (tenantId t = userTenantId usr
                \<and> entityId t = reqEntityId req \<and> complianceId t = Some (complianceKey c))"
  from gen usr entity obtain staged where
    staged: "stageCompliances calc yr (tasks db) usr entity (reqEntityId req)
               (findCompliances db entity (reqComplianceIds req)) = Some staged"
    by (auto simp: generateTasks_def Let_def yr_def bind_eq_Some_conv)
  from repeated_month_breaks_invariant[OF staged c ds[folded yr_def] first rep]
  have "staged \<noteq> []" "\<not> atMostOnePerPeriod (tasks db @ staged)" by simp_all
  with generate_on_unique_store[OF usr entity staged[unfolded yr_def]] gen
  have "res = Inl UniqueConstraintViolation" by simp
  then show "res = Inl UniqueConstraintViolation \<and> storeAfter db res = db"
    by (simp add: storeAfter_def)
next
  define yr where "yr = (case reqYear req of Some y \<Rightarrow> y | None \<Rightarrow> currentYear)"
  define cs where "cs = findCompliances db entity (reqComplianceIds req)"
  assume inv: "atMostOnePerPeriod (tasks db)"
    and usr: "reqUser req = Some usr"
    and entity: "findEntity db (reqEntityId req) (userTenantId usr) = Some entity"
    and keys: "distinct (map complianceKey (findCompliances db entity (reqComplianceIds req)))"
    and months: "\<forall>c \<in> set (findCompliances db entity (reqComplianceIds req)). \<exists>ds.
               calculateDueDatesOn calc c (case reqYear req of Some y \<Rightarrow> y | None \<Rightarrow> currentYear)
                 = Some ds
               \<and> distinct (map (\<lambda>d. (getFullYear d, getMonth d)) ds)
               \<and> (\<forall>d \<in> set ds. getFullYear d < 0 \<or> 99 < getFullYear d)"
  from months have total: "\<forall>c \<in> set cs. calculateDueDatesOn calc c yr \<noteq> None"
    unfolding cs_def yr_def by fastforce
  from stageCompliances_total[OF total] obtain staged where
    staged: "stageCompliances calc yr (tasks db) usr entity (reqEntityId req) cs = Some staged"
    by blast
  have months': "\<forall>c \<in> set cs. \<forall>ds. calculateDueDatesOn calc c yr = Some ds
          \<longrightarrow> distinct (map (\<lambda>d. (getFullYear d, getMonth d)) ds)
              \<and> (\<forall>d \<in> set ds. getFullYear d < 0 \<or> 99 < getFullYear d)"
    using months unfolding cs_def yr_def by fastforce
  have "atMostOnePerPeriod (tasks db @ staged)"
    using staged inv keys[folded cs_def] months' by (rule staged_keeps_invariant)
  with generate_on_unique_store[OF usr entity staged[unfolded yr_def cs_def]]
  have "generateTasks uniqueCreateMany calc currentYear db req
                   = Some (Inr (db\<lparr>tasks := tasks db @ staged\<rparr>, length staged))"
    by (cases "staged = []") simp_all
  with staged show "\<exists>staged.
               stageCompliances calc (case reqYear req of Some y \<Rightarrow> y | None \<Rightarrow> currentYear)
                 (tasks db) usr entity (reqEntityId req)
                 (findCompliances db entity (reqComplianceIds req)) = Some staged
               \<and> generateTasks uniqueCreateMany calc currentYear db req
                   = Some (Inr (db\<lparr>tasks := tasks db @ staged\<rparr>, length staged))"
    unfolding yr_def cs_def by blast
qed


theorem quarterly_run_beside_stored_july_task_and_weekly_first_run:
  "generateTasks uniqueCreateMany (DueDateCalculator (initializeHolidays 2024)) 2026
       (exampleDb [exampleCompliance QUARTERLY None] [julyTask])
       (exampleRequest (Some [''cmp-1'']))
     = Some (Inr (exampleDb [exampleCompliance QUARTERLY None]
                    [julyTask,
                     newTask exampleUser exampleEntity ''e-1'' (exampleCompliance QUARTERLY None)
                       (newDate 2024 3 15),
                     newTask exampleUser exampleEntity ''e-1'' (exampleCompliance QUARTERLY None)
                       (newDate 2024 9 15),
                     newTask exampleUser exampleEntity ''e-1'' (exampleCompliance QUARTERLY None)
                       (newDate 2025 0 15)], 3))
   \<and> atMostOnePerPeriod
         [julyTask,
          newTask exampleUser exampleEntity ''e-1'' (exampleCompliance QUARTERLY None)
            (newDate 2024 3 15),
          newTask exampleUser exampleEntity ''e-1'' (exampleCompliance QUARTERLY None)
            (newDate 2024 9 15),
          newTask exampleUser exampleEntity ''e-1'' (exampleCompliance QUARTERLY None)
            (newDate 2025 0 15)]
   \<and> generateTasks uniqueCreateMany (DueDateCalculator (initializeHolidays 2024)) 2026
         (exampleDb [exampleCompliance WEEKLY None] []) (exampleRequest (Some [''cmp-1'']))
       = Some (Inl UniqueConstraintViolation)"
proof -
  define calc where "calc = DueDateCalculator (initializeHolidays 2024)"
  define qc where "qc = exampleCompliance QUARTERLY None"
  define wc where "wc = exampleCompliance WEEKLY None"
  define qdb where "qdb = exampleDb [qc] [julyTask]"
  define wdb where "wdb = exampleDb [wc] []"
  define req where "req = exampleRequest (Some [''cmp-1''])"
  define mk where "mk = newTask exampleUser exampleEntity ''e-1'' qc"
  have qsel: "findCompliances qdb exampleEntity (Some [''cmp-1'']) = [qc]"
    by (simp add: findCompliances_def qdb_def qc_def)
  have wsel: "findCompliances wdb exampleEntity (Some [''cmp-1'']) = [wc]"
    by (simp add: findCompliances_def wdb_def wc_def)
  have tq: "tasks qdb = [julyTask]"
    by (simp add: qdb_def)
  have tw: "tasks wdb = []"
    by (simp add: wdb_def)
  have rq: "reqUser req = Some exampleUser" "reqEntityId req = ''e-1''"
    "reqYear req = Some 2024" "reqComplianceIds req = Some [''cmp-1'']"
    by (simp_all add: req_def)
  have feq: "findEntity qdb ''e-1'' ''t-1'' = Some exampleEntity"
    by (simp add: qdb_def)
  have few: "findEntity wdb ''e-1'' ''t-1'' = Some exampleEntity"
    by (simp add: wdb_def)
  have july: "atMostOnePerPeriod [julyTask]"
    by (simp add: atMostOnePerPeriod_def generated_def)
  have qstaged: "stageCompliances calc 2024 [julyTask] exampleUser exampleEntity ''e-1'' [qc]
      = Some [mk (newDate 2024 3 15), mk (newDate 2024 9 15), mk (newDate 2025 0 15)]"
    unfolding calc_def qc_def mk_def by (rule quarterly_staged_beside_july)
  have qdates: "calculateDueDatesOn calc qc 2024
      = Some [newDate 2024 3 15, newDate 2024 6 15, newDate 2024 9 15, newDate 2025 0 15]"
    unfolding calc_def qc_def by (rule quarterly_2024)
  have third: "atMostOnePerPeriod (tasks qdb)
        \<and> reqUser req = Some exampleUser
        \<and> findEntity qdb (reqEntityId req) (userTenantId exampleUser) = Some exampleEntity
        \<and> distinct (map complianceKey (findCompliances qdb exampleEntity (reqComplianceIds req)))
        \<and> (\<forall>c \<in> set (findCompliances qdb exampleEntity (reqComplianceIds req)). \<exists>ds.
               calculateDueDatesOn calc c (case reqYear req of Some y \<Rightarrow> y | None \<Rightarrow> 2026)
                 = Some ds
               \<and> distinct (map (\<lambda>d. (getFullYear d, getMonth d)) ds)
               \<and> (\<forall>d \<in> set ds. getFullYear d < 0 \<or> 99 < getFullYear d))"
    using july by (simp add: rq feq tq qsel qdates quarterly_2024_months)
  from store_holds_one_task_per_period[of qdb calc 2026 req _ exampleUser exampleEntity] third
  obtain staged where
    s1: "stageCompliances calc (case reqYear req of Some y \<Rightarrow> y | None \<Rightarrow> 2026)
                 (tasks qdb) exampleUser exampleEntity (reqEntityId req)
                 (findCompliances qdb exampleEntity (reqComplianceIds req)) = Some staged"
    and s2: "generateTasks uniqueCreateMany calc 2026 qdb req
                   = Some (Inr (qdb\<lparr>tasks := tasks qdb @ staged\<rparr>, length staged))"
    by blast
  from s1 have staged: "staged = [mk (newDate 2024 3 15), mk (newDate 2024 9 15),
      mk (newDate 2025 0 15)]"
    using qstaged by (simp add: rq qsel tq del: stageCompliances.simps)
  have run1: "generateTasks uniqueCreateMany calc 2026 qdb req
      = Some (Inr (exampleDb [qc] [julyTask, mk (newDate 2024 3 15), mk (newDate 2024 9 15),
                      mk (newDate 2025 0 15)], 3))"
    using s2 by (simp add: staged) (simp add: qdb_def)
  from store_holds_one_task_per_period[of qdb calc 2026 req
      "Inr (exampleDb [qc] [julyTask, mk (newDate 2024 3 15), mk (newDate 2024 9 15),
                      mk (newDate 2025 0 15)], 3)"] run1 july
  have inv: "atMostOnePerPeriod [julyTask, mk (newDate 2024 3 15), mk (newDate 2024 9 15),
      mk (newDate 2025 0 15)]"
    by (simp add: storeAfter_def) (simp add: qdb_def)
  from weekly_2024_starts obtain later where
    w: "calculateDueDatesOn calc wc 2024 = Some (newDate 2024 0 1 # newDate 2024 0 8 # later)"
    unfolding calc_def wc_def by blast
  from stageCompliances_total[of "[wc]" calc 2024 "[]" exampleUser exampleEntity "''e-1''"] w
  obtain table where
    wstaged: "stageCompliances calc 2024 [] exampleUser exampleEntity ''e-1'' [wc] = Some table"
    by auto
  have run2: "generateTasks uniqueCreateMany calc 2026 wdb req
      = Some (insertStaged uniqueCreateMany wdb table)"
    unfolding generateTasks_def
    by (simp add: rq few tw wsel wstaged del: stageCompliances.simps)
  have second: "generateTasks uniqueCreateMany calc 2026 wdb req
          = Some (insertStaged uniqueCreateMany wdb table)
        \<and> reqUser req = Some exampleUser
        \<and> findEntity wdb (reqEntityId req) (userTenantId exampleUser) = Some exampleEntity
        \<and> wc \<in> set (findCompliances wdb exampleEntity (reqComplianceIds req))
        \<and> calculateDueDatesOn calc wc (case reqYear req of Some y \<Rightarrow> y | None \<Rightarrow> 2026)
              = Some (newDate 2024 0 1 # newDate 2024 0 8 # later)
        \<and> \<not> distinct (map (\<lambda>d. (getFullYear d, getMonth d))
                          (newDate 2024 0 1 # newDate 2024 0 8 # later))
        \<and> (\<forall>t \<in> set (tasks wdb). \<not> (tenantId t = userTenantId exampleUser
                \<and> entityId t = reqEntityId req \<and> complianceId t = Some (complianceKey wc)))"
    using run2 by (simp add: rq few tw wsel w quarterly_2024_months)
  from store_holds_one_task_per_period[of wdb calc 2026 req "insertStaged uniqueCreateMany wdb table" exampleUser
      exampleEntity wc "newDate 2024 0 1 # newDate 2024 0 8 # later"] second
  have "insertStaged uniqueCreateMany wdb table = Inl UniqueConstraintViolation"
    by blast
  with run2 have run3: "generateTasks uniqueCreateMany calc 2026 wdb req
      = Some (Inl UniqueConstraintViolation)"
    by simp
  from run1 inv run3 show ?thesis
    unfolding calc_def qc_def wc_def qdb_def wdb_def req_def mk_def by blast
qed


end
